theory Spec2Isabelle
  imports Main
begin

section \<open>Python values and strings\<close>

text \<open>
  The program is one Python module, \<^verbatim>\<open>pro-test.py\<close>. It fetches JSON documents from three
  providers, turns their records into article dictionaries (\<^verbatim>\<open>fetch_all_news\<close>), and
  enriches every article with the answer of an external language model
  (\<^verbatim>\<open>full_categorize\<close>).

  The values the module handles are what \<^verbatim>\<open>resp.json()\<close> returns: \<^verbatim>\<open>None\<close>, booleans,
  numbers, strings, lists and dictionaries. A dictionary is an association list in
  insertion order in which every key occurs once. Numbers are integers here; a number
  with a fraction would act like a nonzero integer in every test the module makes.

  Strings are \<^typ>\<open>string\<close>, one \<^typ>\<open>char\<close> per character: a \<^typ>\<open>char\<close> is the character with
  that code point, from 0 to 255. Python's strings are Unicode; lower case, word
  characters and white space below are Unicode's on these 256 characters.
\<close>

datatype json =
    JNull
  | JBool bool
  | JNum int
  | JStr string
  | JArr "json list"
  | JObj "(string \<times> json) list"

datatype py_error = AttributeError | TypeError

text \<open>Truthiness, as \<^verbatim>\<open>if v:\<close> and \<^verbatim>\<open>v or w\<close> test it.\<close>

fun py_truthy :: "json \<Rightarrow> bool" where
  "py_truthy JNull = False"
| "py_truthy (JBool b) = b"
| "py_truthy (JNum n) = (n \<noteq> 0)"
| "py_truthy (JStr s) = (s \<noteq> [])"
| "py_truthy (JArr xs) = (xs \<noteq> [])"
| "py_truthy (JObj kvs) = (kvs \<noteq> [])"

definition py_or :: "json \<Rightarrow> json \<Rightarrow> json" where
  "py_or v w = (if py_truthy v then v else w)"

text \<open>
  \<^verbatim>\<open>d.get(k, default)\<close>: only a dictionary has the method, every other value raises
  \<^verbatim>\<open>AttributeError\<close>. \<^verbatim>\<open>d.get(k)\<close> is the call with default \<^verbatim>\<open>None\<close>.
\<close>

fun py_get :: "json \<Rightarrow> string \<Rightarrow> json \<Rightarrow> py_error + json" where
  "py_get (JObj kvs) k dflt = Inr (case map_of kvs k of Some v \<Rightarrow> v | None \<Rightarrow> dflt)"
| "py_get _ k dflt = Inl AttributeError"

text \<open>
  \<^verbatim>\<open>for x in v\<close>: a list gives its items, a string its characters, a dictionary its
  keys; the other values are not iterable and raise \<^verbatim>\<open>TypeError\<close>.
\<close>

fun py_iter :: "json \<Rightarrow> py_error + json list" where
  "py_iter (JArr xs) = Inr xs"
| "py_iter (JStr s) = Inr (map (\<lambda>c. JStr [c]) s)"
| "py_iter (JObj kvs) = Inr (map (\<lambda>kv. JStr (fst kv)) kvs)"
| "py_iter _ = Inl TypeError"

text \<open>
  \<^verbatim>\<open>str(v)\<close>. The text Python prints for a number, a list or a dictionary is the
  builtin's business, so it is the parameter \<open>rp\<close>.
\<close>

fun py_str :: "(json \<Rightarrow> string) \<Rightarrow> json \<Rightarrow> string" where
  "py_str rp (JStr s) = s"
| "py_str rp JNull = ''None''"
| "py_str rp (JBool b) = (if b then ''True'' else ''False'')"
| "py_str rp v = rp v"

definition ascii_upper :: string where
  "ascii_upper = ''ABCDEFGHIJKLMNOPQRSTUVWXYZ''"

definition ascii_lower :: string where
  "ascii_lower = ''abcdefghijklmnopqrstuvwxyz''"

definition ascii_digits :: string where
  "ascii_digits = ''0123456789''"

text \<open>
  \<^verbatim>\<open>s.lower()\<close>: the capital letters are \<^verbatim>\<open>A\<close> to \<^verbatim>\<open>Z\<close> and the code points 0xC0 to 0xDE
  without the multiplication sign 0xD7; each has its small letter 0x20 further on.
\<close>

definition in_range :: "nat \<Rightarrow> nat \<Rightarrow> nat \<Rightarrow> bool" where
  "in_range lo hi n = (lo \<le> n \<and> n \<le> hi)"

definition capital_point :: "nat \<Rightarrow> bool" where
  "capital_point n = (in_range 0x41 0x5A n \<or> in_range 0xC0 0xD6 n \<or> in_range 0xD8 0xDE n)"

definition lower_char :: "char \<Rightarrow> char" where
  "lower_char c =
     (if capital_point (of_char c) then char_of (of_char c + (0x20 :: nat)) else c)"

definition py_lower :: "string \<Rightarrow> string" where
  "py_lower s = map lower_char s"

text \<open>\<^verbatim>\<open>s.startswith(p)\<close> and \<^verbatim>\<open>sub in s\<close> on strings.\<close>

definition startswith :: "string \<Rightarrow> string \<Rightarrow> bool" where
  "startswith s p = (take (length p) s = p)"

fun py_in :: "string \<Rightarrow> string \<Rightarrow> bool" where
  "py_in sub [] = (sub = [])"
| "py_in sub (c # cs) = (startswith (c # cs) sub \<or> py_in sub cs)"

text \<open>
  \<^verbatim>\<open>s.strip()\<close> removes white space at both ends: tab to carriage return, 0x1C to 0x1F,
  the blank, the next-line control 0x85 and the no-break space 0xA0.
\<close>

definition py_isspace :: "char \<Rightarrow> bool" where
  "py_isspace c = (c \<in> set [CHR 0x09, CHR 0x0A, CHR 0x0B, CHR 0x0C, CHR 0x0D,
                              CHR 0x1C, CHR 0x1D, CHR 0x1E, CHR 0x1F, CHR '' '',
                              CHR 0x85, CHR 0xA0])"

definition py_strip :: "string \<Rightarrow> string" where
  "py_strip s = rev (dropWhile py_isspace (rev (dropWhile py_isspace s)))"

section \<open>The classifier's reply\<close>

text \<open>
  \<^verbatim>\<open>re.search(r'SENTIMENT=([a-zA-Z0-9]+)', s)\<close> and its \<^verbatim>\<open>INTENT=\<close> twin: the leftmost
  place where the token is followed by a letter or digit; group 1 is the longest run
  of letters and digits there. \<^const>\<open>None\<close> is Python's \<^verbatim>\<open>None\<close>, no match.
\<close>

definition alnum :: "char \<Rightarrow> bool" where
  "alnum c = (c \<in> set (ascii_lower @ ascii_upper @ ascii_digits))"

fun search_label :: "string \<Rightarrow> string \<Rightarrow> string option" where
  "search_label tok [] = None"
| "search_label tok (c # cs) =
     (if startswith (c # cs) tok \<and> takeWhile alnum (drop (length tok) (c # cs)) \<noteq> []
      then Some (takeWhile alnum (drop (length tok) (c # cs)))
      else search_label tok cs)"

text \<open>
  \<^verbatim>\<open>re.search(r'REASON=(.*)', s)\<close>: the leftmost \<^verbatim>\<open>REASON=\<close>; group 1 runs to the end of
  the line, since the dot matches everything but the newline.
\<close>

fun search_reason :: "string \<Rightarrow> string option" where
  "search_reason [] = None"
| "search_reason (c # cs) =
     (if startswith (c # cs) ''REASON=''
      then Some (takeWhile (\<lambda>x. x \<noteq> CHR 0x0A) (drop (length ''REASON='') (c # cs)))
      else search_reason cs)"

text \<open>
  Lines 193 to 203 of \<^verbatim>\<open>full_categorize\<close>. The three labels start empty. Inside the
  \<^verbatim>\<open>try\<close>, \<^verbatim>\<open>.group(1)\<close> on a failed search raises and the \<^verbatim>\<open>except\<close> swallows it,
  which keeps the assignments already made: a reply whose sentiment parses and whose
  intent does not leaves the sentiment set and the other two empty.
\<close>

definition parse_labels :: "string \<Rightarrow> string \<times> string \<times> string" where
  "parse_labels gemini_result =
     (if py_in ''SENTIMENT='' gemini_result \<and> py_in ''INTENT='' gemini_result then
        (case search_label ''SENTIMENT='' gemini_result of
           None \<Rightarrow> ([], [], [])
         | Some sentiment_label \<Rightarrow>
             (case search_label ''INTENT='' gemini_result of
                None \<Rightarrow> (sentiment_label, [], [])
              | Some intent_label \<Rightarrow>
                  (sentiment_label, intent_label,
                   (case search_reason gemini_result of
                      None \<Rightarrow> []
                    | Some r \<Rightarrow> py_strip r))))
      else ([], [], []))"

text \<open>Line 206: the flag is read off the intent label alone.\<close>

definition is_harmful :: "string \<Rightarrow> bool" where
  "is_harmful intent_label = startswith intent_label ''harmful''"

section \<open>The local signal detector\<close>

definition HARMFUL_KEYWORDS :: "string list" where
  "HARMFUL_KEYWORDS =
     [''scam'', ''fraud'', ''bomb'', ''attack'', ''terror'', ''hack'', ''threat'',
      ''arrested'', ''kill'', ''bad'', ''murder'', ''shoot'']"

text \<open>
  \<^verbatim>\<open>re.search(r'\b{}\b'.format(re.escape(word)), text, re.IGNORECASE)\<close>. After
  \<^verbatim>\<open>re.escape\<close> the pattern is the word taken literally between two \<^verbatim>\<open>\b\<close>. A \<^verbatim>\<open>\b\<close>
  matches between two positions of which exactly one holds a word character; outside the
  text there is none. The pattern is a string and \<^verbatim>\<open>re.ASCII\<close> is not set, so \<^verbatim>\<open>\w\<close> is the
  underscore and whatever \<^verbatim>\<open>str.isalnum\<close> accepts: besides the ASCII letters and digits,
  the letters 0xAA, 0xB5, 0xBA, 0xC0 to 0xFF without 0xD7 and 0xF7, the superscript
  digits 0xB2, 0xB3, 0xB9 and the fractions 0xBC to 0xBE. With \<^verbatim>\<open>re.IGNORECASE\<close> two of
  the 256 characters match when their lower cases are equal. The search walks the text from
  the left and carries the character before the current position.
\<close>

definition word_point :: "nat \<Rightarrow> bool" where
  "word_point n =
     (in_range 0x30 0x39 n \<or> in_range 0x41 0x5A n \<or> n = 0x5F \<or> in_range 0x61 0x7A n
      \<or> n = 0xAA \<or> in_range 0xB2 0xB3 n \<or> n = 0xB5 \<or> in_range 0xB9 0xBA n
      \<or> in_range 0xBC 0xBE n \<or> in_range 0xC0 0xD6 n \<or> in_range 0xD8 0xF6 n
      \<or> in_range 0xF8 0xFF n)"

definition word_char :: "char \<Rightarrow> bool" where
  "word_char c = word_point (of_char c)"

definition word_opt :: "char option \<Rightarrow> bool" where
  "word_opt x = (case x of None \<Rightarrow> False | Some c \<Rightarrow> word_char c)"

definition boundary :: "char option \<Rightarrow> char option \<Rightarrow> bool" where
  "boundary l r = (word_opt l \<noteq> word_opt r)"

definition first_opt :: "string \<Rightarrow> char option" where
  "first_opt s = (case s of [] \<Rightarrow> None | c # _ \<Rightarrow> Some c)"

definition last_opt :: "char option \<Rightarrow> string \<Rightarrow> char option" where
  "last_opt prev s = (if s = [] then prev else Some (last s))"

definition match_at :: "string \<Rightarrow> char option \<Rightarrow> string \<Rightarrow> bool" where
  "match_at word prev rest =
     (boundary prev (first_opt rest)
      \<and> length word \<le> length rest
      \<and> py_lower (take (length word) rest) = py_lower word
      \<and> boundary (last_opt prev (take (length word) rest))
                  (first_opt (drop (length word) rest)))"

fun word_search :: "string \<Rightarrow> char option \<Rightarrow> string \<Rightarrow> bool" where
  "word_search word prev [] = match_at word prev []"
| "word_search word prev (c # cs) =
     (match_at word prev (c # cs) \<or> word_search word (Some c) cs)"

text \<open>
  \<^verbatim>\<open>detect_harmful_words\<close>, lines 132 to 138. \<open>found\<close> is a Python set: adding a member
  twice keeps one. The order in which Python lists a set is not fixed; the model keeps
  the order of insertion, and no statement below depends on it.
\<close>

fun detect_loop :: "string list \<Rightarrow> string \<Rightarrow> string list \<Rightarrow> string list" where
  "detect_loop [] text found = found"
| "detect_loop (word # ws) text found =
     detect_loop ws text
       (if word_search word None text then List.insert (py_lower word) found else found)"

definition detect_harmful_words :: "(json \<Rightarrow> string) \<Rightarrow> json \<Rightarrow> string list" where
  "detect_harmful_words rp text =
     (if py_truthy text then detect_loop HARMFUL_KEYWORDS (py_str rp text) [] else [])"

section \<open>Articles and the categorizer\<close>

text \<open>
  An article is the dictionary built in \<^verbatim>\<open>fetch_all_news\<close>; its values are whatever the
  provider sent, so they are \<^typ>\<open>json\<close> values (the key \<^verbatim>\<open>keywords\<close> is the field
  \<open>keywords_of\<close>). \<^verbatim>\<open>full_categorize\<close> adds six keys to it.
\<close>

record article =
  source :: json
  title :: json
  description :: json
  link :: json
  pub_date :: json
  keywords_of :: json
  api_type :: string

record enriched = article +
  harmful :: bool
  harmful_words :: "string list"
  gemini_sentiment :: string
  gemini_intent :: string
  gemini_reason :: string
  gemini_raw :: string

text \<open>
  The language model is outside the program. One call either raises (with a message),
  or returns an object with a \<^verbatim>\<open>text\<close> attribute, or one without, of which \<^verbatim>\<open>str\<close> is
  taken. The model may answer the same prompt differently each time, so the oracle
  also gets the number of the call. The prompt is a fixed preamble followed by the
  article text and the harmful words; the oracle receives these two.
\<close>

datatype gemini_response = Failed string | WithText string | WithoutText string

type_synonym gemini = "nat \<Rightarrow> string \<Rightarrow> string \<Rightarrow> gemini_response"

definition fetch_from_gemini_sentiment_intent ::
  "gemini \<Rightarrow> nat \<Rightarrow> string \<Rightarrow> string \<Rightarrow> string" where
  "fetch_from_gemini_sentiment_intent g i text harm_words =
     (case g i text harm_words of
        WithText t \<Rightarrow> py_strip t
      | WithoutText s \<Rightarrow> s
      | Failed e \<Rightarrow> ''[Gemini API error: '' @ e @ '']'')"

fun py_join :: "string \<Rightarrow> string list \<Rightarrow> string" where
  "py_join sep [] = []"
| "py_join sep [x] = x"
| "py_join sep (x # y # ys) = x @ sep @ py_join sep (y # ys)"

text \<open>
  Lines 179 to 182: every keyword is lowered and every lexicon word that is a substring
  of it is collected. \<^verbatim>\<open>article.get('keywords') or []\<close> is then iterated, which raises
  \<^verbatim>\<open>TypeError\<close> on a nonzero number or \<^verbatim>\<open>True\<close>.
\<close>

definition keyword_hits :: "(json \<Rightarrow> string) \<Rightarrow> json list \<Rightarrow> string list" where
  "keyword_hits rp kws =
     concat (map (\<lambda>kw. filter (\<lambda>word. py_in word (py_lower (py_str rp kw))) HARMFUL_KEYWORDS)
                 kws)"

text \<open>
  Line 186: \<^verbatim>\<open>(title or '') + ". " + (description or '')\<close>. Adding a string to a truthy
  value that is not a string raises \<^verbatim>\<open>TypeError\<close>.
\<close>

definition compose_text :: "article \<Rightarrow> py_error + string" where
  "compose_text a =
     (case py_or (title a) (JStr []) of
        JStr t \<Rightarrow>
          (case py_or (description a) (JStr []) of
             JStr d \<Rightarrow> Inr (t @ ''. '' @ d)
           | _ \<Rightarrow> Inl TypeError)
      | _ \<Rightarrow> Inl TypeError)"

text \<open>
  The body of the loop of \<^verbatim>\<open>full_categorize\<close>, for the article at position \<open>i\<close>. The
  loop writes the six new keys into the dictionary it was given; the dictionaries are
  the ones \<^verbatim>\<open>fetch_all_news\<close> built, one object per article, so the model returns the
  extended record.
\<close>

definition categorize_one ::
  "(json \<Rightarrow> string) \<Rightarrow> gemini \<Rightarrow> nat \<Rightarrow> article \<Rightarrow> py_error + enriched" where
  "categorize_one rp g i a =
     (let harmful_in_title = detect_harmful_words rp (title a);
          harmful_in_desc = detect_harmful_words rp (description a)
      in case py_iter (py_or (keywords_of a) (JArr [])) of
           Inl e \<Rightarrow> Inl e
         | Inr kws \<Rightarrow>
             (let harmful_in_keywords = keyword_hits rp kws;
                  hw = remdups (harmful_in_title @ harmful_in_desc @ harmful_in_keywords)
              in case compose_text a of
                   Inl e \<Rightarrow> Inl e
                 | Inr text \<Rightarrow>
                     (let gemini_result =
                            fetch_from_gemini_sentiment_intent g i text
                              (if hw \<noteq> [] then py_join '', '' hw else ''None'');
                          labels = parse_labels gemini_result;
                          intent_label = fst (snd labels)
                      in Inr (article.extend a
                           (enriched.fields (is_harmful intent_label) hw (fst labels)
                              intent_label (snd (snd labels)) gemini_result)))))"

fun categorize_loop ::
  "(json \<Rightarrow> string) \<Rightarrow> gemini \<Rightarrow> nat \<Rightarrow> article list \<Rightarrow> enriched list
     \<Rightarrow> py_error + enriched list" where
  "categorize_loop rp g i [] categorized = Inr categorized"
| "categorize_loop rp g i (a # articles) categorized =
     (case categorize_one rp g i a of
        Inl e \<Rightarrow> Inl e
      | Inr x \<Rightarrow> categorize_loop rp g (Suc i) articles (categorized @ [x]))"

definition full_categorize ::
  "(json \<Rightarrow> string) \<Rightarrow> gemini \<Rightarrow> article list \<Rightarrow> py_error + enriched list" where
  "full_categorize rp g articles = categorize_loop rp g 0 articles []"

section \<open>Fetching and normalizing\<close>

text \<open>
  A source configuration is a dictionary with the keys \<^verbatim>\<open>name\<close>, \<^verbatim>\<open>type\<close>, \<^verbatim>\<open>base_url\<close> and
  \<^verbatim>\<open>api_key\<close>, each a string or missing.
\<close>

record api_config =
  cfg_name :: "string option"
  cfg_type :: "string option"
  cfg_base_url :: "string option"
  cfg_api_key :: "string option"

definition opt_json :: "string option \<Rightarrow> json" where
  "opt_json x = (case x of None \<Rightarrow> JNull | Some s \<Rightarrow> JStr s)"

text \<open>Lines 51 to 72: the query parameters, by type of source.\<close>

definition build_params ::
  "api_config \<Rightarrow> string \<Rightarrow> string \<Rightarrow> string \<Rightarrow> int \<Rightarrow> (string \<times> json) list" where
  "build_params api query language country max_results =
     (if cfg_type api = Some ''wikipedia'' then
        [(''action'', JStr ''query''), (''list'', JStr ''search''), (''srsearch'', JStr query),
         (''format'', JStr ''json''), (''srlimit'', JNum max_results)]
      else if cfg_type api = Some ''newsdata'' then
        [(''q'', JStr query), (''language'', JStr language), (''country'', JStr country),
         (''apikey'', opt_json (cfg_api_key api))]
      else
        [(''q'', JStr query), (''language'', JStr language), (''pageSize'', JNum max_results),
         (''apiKey'', opt_json (cfg_api_key api))])"

text \<open>
  The network is outside the program. The \<^verbatim>\<open>try\<close> block of lines 75 to 81 either
  produces the decoded JSON body or ends in the \<^verbatim>\<open>except\<close>, whatever was raised:
  a connection error, a timeout, \<^verbatim>\<open>raise_for_status\<close> on a status that is not 2xx, a body
  that is not JSON, or the \<^verbatim>\<open>KeyError\<close> of a configuration without \<^verbatim>\<open>base_url\<close>. The oracle
  gets the position of the source, the address and the parameters and answers with
  the message of the exception (\<^const>\<open>Inl\<close>) or with the body (\<^const>\<open>Inr\<close>).
\<close>

type_synonym requests = "nat \<Rightarrow> string \<Rightarrow> (string \<times> json) list \<Rightarrow> string + json"

definition call_api ::
  "requests \<Rightarrow> nat \<Rightarrow> api_config \<Rightarrow> (string \<times> json) list \<Rightarrow> string + json" where
  "call_api net i api params =
     (case cfg_base_url api of
        None \<Rightarrow> Inl ''KeyError''
      | Some url \<Rightarrow> net i url params)"

text \<open>
  \<^verbatim>\<open>re.sub("<.*?>", "", s)\<close>: from a \<^verbatim>\<open><\<close> the shortest span up to the next \<^verbatim>\<open>>\<close> on the same
  line is removed; a \<^verbatim>\<open><\<close> with a newline or the end of the text before any \<^verbatim>\<open>>\<close> stays. On
  a value that is not a string \<^verbatim>\<open>re.sub\<close> raises \<^verbatim>\<open>TypeError\<close>.
\<close>

function strip_tags :: "string \<Rightarrow> string" where
  "strip_tags [] = []"
| "strip_tags (c # cs) =
     (if c = CHR ''<'' then
        (case dropWhile (\<lambda>x. x \<noteq> CHR ''>'' \<and> x \<noteq> CHR 0x0A) cs of
           [] \<Rightarrow> c # strip_tags cs
         | d # rest \<Rightarrow> if d = CHR ''>'' then strip_tags rest else c # strip_tags cs)
      else c # strip_tags cs)"
  by pat_completeness auto
termination
proof (relation "measure length")
  fix c :: char and cs d rest
  assume "dropWhile (\<lambda>x. x \<noteq> CHR ''>'' \<and> x \<noteq> CHR 0x0A) cs = d # rest"
  then have "length (d # rest) \<le> length cs"
    using length_dropWhile_le [of "\<lambda>x. x \<noteq> CHR ''>'' \<and> x \<noteq> CHR 0x0A" cs] by simp
  then show "(rest, c # cs) \<in> measure length" by simp
qed auto

definition re_sub_tags :: "json \<Rightarrow> py_error + string" where
  "re_sub_tags v = (case v of JStr s \<Rightarrow> Inr (strip_tags s) | _ \<Rightarrow> Inl TypeError)"

definition bind_err :: "py_error + 'a \<Rightarrow> ('a \<Rightarrow> py_error + 'b) \<Rightarrow> py_error + 'b" where
  "bind_err r f = (case r of Inl e \<Rightarrow> Inl e | Inr v \<Rightarrow> f v)"

text \<open>The three dictionary displays of lines 87 to 123, one per type of source.\<close>

definition wikipedia_article :: "(json \<Rightarrow> string) \<Rightarrow> json \<Rightarrow> py_error + article" where
  "wikipedia_article rp item =
     bind_err (py_get item ''title'' JNull) (\<lambda>t.
     bind_err (py_get item ''snippet'' (JStr [])) (\<lambda>snippet.
     bind_err (re_sub_tags snippet) (\<lambda>d.
     bind_err (py_get item ''pageid'' JNull) (\<lambda>pageid.
       Inr \<lparr>source = JStr ''Wikipedia'', title = t, description = JStr d,
            link = JStr (''https://en.wikipedia.org/?curid='' @ py_str rp pageid),
            pub_date = JStr [], keywords_of = JArr [], api_type = ''wikipedia''\<rparr>))))"

definition newsdata_article :: "json \<Rightarrow> py_error + article" where
  "newsdata_article item =
     bind_err (py_get item ''source_id'' JNull) (\<lambda>source_id.
     bind_err (py_get item ''source_name'' JNull) (\<lambda>source_name.
     bind_err (py_get item ''title'' JNull) (\<lambda>t.
     bind_err (py_get item ''description'' JNull) (\<lambda>d.
     bind_err (py_get item ''link'' JNull) (\<lambda>l.
     bind_err (py_get item ''pubDate'' JNull) (\<lambda>pubDate.
     bind_err (py_get item ''keywords'' JNull) (\<lambda>kws.
       Inr \<lparr>source = py_or source_id (py_or source_name (JStr ''NewsData.io'')),
            title = t, description = py_or d (JStr []), link = l, pub_date = pubDate,
            keywords_of = py_or kws (JArr []), api_type = ''news''\<rparr>)))))))"

definition newsapi_article :: "json \<Rightarrow> py_error + article" where
  "newsapi_article item =
     bind_err (py_get item ''source'' (JObj [])) (\<lambda>src.
     bind_err (py_get src ''name'' (JStr ''NewsAPI'')) (\<lambda>nm.
     bind_err (py_get item ''title'' JNull) (\<lambda>t.
     bind_err (py_get item ''description'' JNull) (\<lambda>d.
     bind_err (py_get item ''url'' JNull) (\<lambda>url.
     bind_err (py_get item ''publishedAt'' JNull) (\<lambda>publishedAt.
       Inr \<lparr>source = nm, title = t, description = py_or d (JStr []), link = url,
            pub_date = publishedAt, keywords_of = JArr [], api_type = ''news''\<rparr>))))))"

text \<open>
  The inner \<^verbatim>\<open>for item in ...: articles.append({...})\<close>: an exception raised for one item
  leaves the loop and the function.
\<close>

fun build_articles ::
  "(json \<Rightarrow> py_error + article) \<Rightarrow> json list \<Rightarrow> article list \<Rightarrow> py_error + article list" where
  "build_articles f [] articles = Inr articles"
| "build_articles f (item # items) articles =
     (case f item of
        Inl e \<Rightarrow> Inl e
      | Inr a \<Rightarrow> build_articles f items (articles @ [a]))"

text \<open>
  Lines 84 to 123, the part of the loop body after the \<^verbatim>\<open>try\<close>. It has three ways out:
  an exception, which nothing catches; the \<^verbatim>\<open>continue\<close> after one of the two printed
  warnings; the list of articles of this source.
\<close>

datatype warning = NewsData_non_success | NewsAPI_non_ok

datatype parsed = Raised py_error | Discarded warning | Articles "article list"

definition items_of :: "json \<Rightarrow> string \<Rightarrow> py_error + json list" where
  "items_of d k = bind_err (py_get d k (JArr [])) py_iter"

definition built :: "py_error + article list \<Rightarrow> parsed" where
  "built r = (case r of Inl e \<Rightarrow> Raised e | Inr arts \<Rightarrow> Articles arts)"

definition normalize :: "(json \<Rightarrow> string) \<Rightarrow> string option \<Rightarrow> json \<Rightarrow> parsed" where
  "normalize rp ty data =
     (if ty = Some ''wikipedia'' then
        built (bind_err (py_get data ''query'' (JObj [])) (\<lambda>q.
               bind_err (items_of q ''search'') (\<lambda>items.
                 build_articles (wikipedia_article rp) items [])))
      else if ty = Some ''newsdata'' then
        (case py_get data ''status'' JNull of
           Inl e \<Rightarrow> Raised e
         | Inr status \<Rightarrow>
             if status \<noteq> JStr ''success'' then Discarded NewsData_non_success
             else built (bind_err (items_of data ''results'') (\<lambda>items.
                           build_articles newsdata_article items [])))
      else
        (case py_get data ''status'' JNull of
           Inl e \<Rightarrow> Raised e
         | Inr status \<Rightarrow>
             if status \<noteq> JStr ''ok'' then Discarded NewsAPI_non_ok
             else built (bind_err (items_of data ''articles'') (\<lambda>items.
                           build_articles newsapi_article items []))))"

text \<open>
  \<^verbatim>\<open>fetch_all_news\<close>: the loop over the configurations, with \<open>i\<close> the position of the
  source and \<open>all_articles\<close> the list built so far.
\<close>

fun fetch_loop ::
  "requests \<Rightarrow> (json \<Rightarrow> string) \<Rightarrow> nat \<Rightarrow> api_config list \<Rightarrow> string \<Rightarrow> string \<Rightarrow> string \<Rightarrow> int
     \<Rightarrow> article list \<Rightarrow> py_error + article list" where
  "fetch_loop net rp i [] query language country max_results all_articles = Inr all_articles"
| "fetch_loop net rp i (api # apis) query language country max_results all_articles =
     (case call_api net i api (build_params api query language country max_results) of
        Inl e \<Rightarrow> fetch_loop net rp (Suc i) apis query language country max_results all_articles
      | Inr data \<Rightarrow>
          (case normalize rp (cfg_type api) data of
             Raised e \<Rightarrow> Inl e
           | Discarded w \<Rightarrow>
               fetch_loop net rp (Suc i) apis query language country max_results all_articles
           | Articles articles \<Rightarrow>
               fetch_loop net rp (Suc i) apis query language country max_results
                 (all_articles @ articles)))"

definition fetch_all_news ::
  "requests \<Rightarrow> (json \<Rightarrow> string) \<Rightarrow> api_config list \<Rightarrow> string \<Rightarrow> string \<Rightarrow> string \<Rightarrow> int
     \<Rightarrow> py_error + article list" where
  "fetch_all_news net rp api_configs query language country max_results =
     fetch_loop net rp 0 api_configs query language country max_results []"

section \<open>Sample data\<close>

text \<open>
  Concrete inputs on which the statements below are tried out. \<open>example_repr\<close> stands for
  the text Python prints for numbers and containers; the samples never print one.
\<close>

definition example_repr :: "json \<Rightarrow> string" where
  "example_repr v = ''?''"

definition scam_article :: article where
  "scam_article =
     \<lparr>source = JStr ''NewsAPI'', title = JStr ''Bank scam'', description = JStr [],
      link = JNull, pub_date = JNull, keywords_of = JArr [], api_type = ''news''\<rparr>"

definition calm_article :: article where
  "calm_article =
     \<lparr>source = JStr ''Wikipedia'', title = JNull, description = JStr ''Rain'',
      link = JStr ''https://en.wikipedia.org/?curid=7'', pub_date = JStr [],
      keywords_of = JArr [], api_type = ''wikipedia''\<rparr>"

text \<open>
  A language model that answers the first call as instructed, forgets the sentiment in
  the second and fails from the third on.
\<close>

definition example_gemini :: gemini where
  "example_gemini i text harm_words =
     (if i = 0 then WithText ''SENTIMENT=negative2 INTENT=harmful2 REASON=high risk scam language''
      else if i = 1 then WithText ''INTENT=harmful2 REASON=no sentiment given''
      else Failed ''quota exceeded'')"

text \<open>A language model whose every call fails with a message that quotes a reply.\<close>

definition quoting_gemini :: gemini where
  "quoting_gemini i text harm_words = Failed ''SENTIMENT=x INTENT=harmful1 in request''"

definition quoting_enriched :: enriched where
  "quoting_enriched =
     article.extend calm_article
       (enriched.fields True [] ''x'' ''harmful1'' []
          ''[Gemini API error: SENTIMENT=x INTENT=harmful1 in request]'')"

definition example_enriched :: "enriched list" where
  "example_enriched =
     [article.extend scam_article
        (enriched.fields True [''scam''] ''negative2'' ''harmful2'' ''high risk scam language''
           ''SENTIMENT=negative2 INTENT=harmful2 REASON=high risk scam language''),
      article.extend calm_article
        (enriched.fields False [] [] [] [] ''INTENT=harmful2 REASON=no sentiment given''),
      article.extend scam_article
        (enriched.fields False [''scam''] [] [] [] ''[Gemini API error: quota exceeded]'')]"

section \<open>Derived notions used in the statements\<close>

text \<open>
  The list of provider records that the inner loop of a source walks through, and the
  dictionary display applied to each of them.
\<close>

definition provider_items :: "string option \<Rightarrow> json \<Rightarrow> py_error + json list" where
  "provider_items ty data =
     (if ty = Some ''wikipedia'' then
        bind_err (py_get data ''query'' (JObj [])) (\<lambda>q. items_of q ''search'')
      else if ty = Some ''newsdata'' then items_of data ''results''
      else items_of data ''articles'')"

definition item_article :: "(json \<Rightarrow> string) \<Rightarrow> string option \<Rightarrow> json \<Rightarrow> py_error + article" where
  "item_article rp ty =
     (if ty = Some ''wikipedia'' then wikipedia_article rp
      else if ty = Some ''newsdata'' then newsdata_article
      else newsapi_article)"

text \<open>
  What the source at position \<open>fst p\<close> with configuration \<open>snd p\<close> adds to the result, and
  whether its records make the normalizing code raise.
\<close>

definition contribution ::
  "requests \<Rightarrow> (json \<Rightarrow> string) \<Rightarrow> string \<Rightarrow> string \<Rightarrow> string \<Rightarrow> int \<Rightarrow> nat \<times> api_config
     \<Rightarrow> article list" where
  "contribution net rp query language country max_results p =
     (case call_api net (fst p) (snd p)
             (build_params (snd p) query language country max_results) of
        Inl e \<Rightarrow> []
      | Inr data \<Rightarrow>
          (case normalize rp (cfg_type (snd p)) data of
             Articles articles \<Rightarrow> articles
           | _ \<Rightarrow> []))"

definition escapes ::
  "requests \<Rightarrow> (json \<Rightarrow> string) \<Rightarrow> string \<Rightarrow> string \<Rightarrow> string \<Rightarrow> int \<Rightarrow> nat \<times> api_config
     \<Rightarrow> bool" where
  "escapes net rp query language country max_results p =
     (case call_api net (fst p) (snd p)
             (build_params (snd p) query language country max_results) of
        Inl e \<Rightarrow> False
      | Inr data \<Rightarrow>
          (case normalize rp (cfg_type (snd p)) data of
             Raised e \<Rightarrow> True
           | _ \<Rightarrow> False))"

text \<open>
  The articles on which the body of the loop of \<^verbatim>\<open>full_categorize\<close> does not raise: title
  and description are strings or falsy, the keywords are falsy or can be iterated.
\<close>

definition str_or_falsy :: "json \<Rightarrow> bool" where
  "str_or_falsy v = (case py_or v (JStr []) of JStr s \<Rightarrow> True | _ \<Rightarrow> False)"

definition categorizable :: "article \<Rightarrow> bool" where
  "categorizable a =
     (str_or_falsy (title a) \<and> str_or_falsy (description a)
      \<and> (case py_iter (py_or (keywords_of a) (JArr [])) of Inl e \<Rightarrow> False | Inr kws \<Rightarrow> True))"

section \<open>Sample sources\<close>

definition newsapi_config :: api_config where
  "newsapi_config =
     \<lparr>cfg_name = Some ''NewsAPI'', cfg_type = Some ''newsapi'',
      cfg_base_url = Some ''https://newsapi.org/v2/everything'', cfg_api_key = Some ''k1''\<rparr>"

definition newsdata_config :: api_config where
  "newsdata_config =
     \<lparr>cfg_name = Some ''NewsData.io'', cfg_type = Some ''newsdata'',
      cfg_base_url = Some ''https://newsdata.io/api/1/latest'', cfg_api_key = Some ''k2''\<rparr>"

definition wikipedia_config :: api_config where
  "wikipedia_config =
     \<lparr>cfg_name = Some ''Wikipedia'', cfg_type = Some ''wikipedia'',
      cfg_base_url = Some ''https://en.wikipedia.org/w/api.php'', cfg_api_key = None\<rparr>"

text \<open>
  A network in which NewsAPI times out, NewsData.io returns one record without
  description and keywords, and Wikipedia returns one hit without a title.
\<close>

definition example_net :: requests where
  "example_net i url params =
     (if url = ''https://newsapi.org/v2/everything'' then Inl ''Read timed out''
      else if url = ''https://newsdata.io/api/1/latest'' then
        Inr (JObj [(''status'', JStr ''success''),
                   (''results'', JArr [JObj [(''title'', JStr ''Bank scam''),
                                             (''source_id'', JStr ''NewsAPI'')]])])
      else
        Inr (JObj [(''query'', JObj [(''search'',
               JArr [JObj [(''snippet'', JStr ''<b>Rain</b>''), (''pageid'', JStr ''7'')]])])]))"

text \<open>
  A network in which NewsAPI times out and NewsData.io reports success with
  \<^verbatim>\<open>"results": null\<close>.
\<close>

definition null_results_net :: requests where
  "null_results_net i url params =
     (if url = ''https://newsapi.org/v2/everything'' then Inl ''Read timed out''
      else Inr (JObj [(''status'', JStr ''success''), (''results'', JNull)]))"

text \<open>A network in which every provider answers with a body whose status is \<^verbatim>\<open>error\<close>.\<close>

definition error_status_net :: requests where
  "error_status_net i url params =
     Inr (JObj [(''status'', JStr ''error''), (''code'', JStr ''apiKeyInvalid'')])"

definition example_configs :: "api_config list" where
  "example_configs = [newsapi_config, newsdata_config, wikipedia_config, newsdata_config]"

section \<open>The matching rules in the words of the specification\<close>

text \<open>
  The specification asks for a whole-word, case-insensitive match. These notions are
  written down here a second time, by listing the characters, without reference to the
  definitions that model the regular expression: the capital letters with their small
  letters in the same order, the letters without case, the digits.
\<close>

definition upper_letters :: string where
  "upper_letters = ''ABCDEFGHIJKLMNOPQRSTUVWXYZ'' @
     [CHR 0xC0, CHR 0xC1, CHR 0xC2, CHR 0xC3, CHR 0xC4, CHR 0xC5, CHR 0xC6, CHR 0xC7,
      CHR 0xC8, CHR 0xC9, CHR 0xCA, CHR 0xCB, CHR 0xCC, CHR 0xCD, CHR 0xCE, CHR 0xCF,
      CHR 0xD0, CHR 0xD1, CHR 0xD2, CHR 0xD3, CHR 0xD4, CHR 0xD5, CHR 0xD6,
      CHR 0xD8, CHR 0xD9, CHR 0xDA, CHR 0xDB, CHR 0xDC, CHR 0xDD, CHR 0xDE]"

definition lower_letters :: string where
  "lower_letters = ''abcdefghijklmnopqrstuvwxyz'' @
     [CHR 0xE0, CHR 0xE1, CHR 0xE2, CHR 0xE3, CHR 0xE4, CHR 0xE5, CHR 0xE6, CHR 0xE7,
      CHR 0xE8, CHR 0xE9, CHR 0xEA, CHR 0xEB, CHR 0xEC, CHR 0xED, CHR 0xEE, CHR 0xEF,
      CHR 0xF0, CHR 0xF1, CHR 0xF2, CHR 0xF3, CHR 0xF4, CHR 0xF5, CHR 0xF6,
      CHR 0xF8, CHR 0xF9, CHR 0xFA, CHR 0xFB, CHR 0xFC, CHR 0xFD, CHR 0xFE]"

definition uncased_letters :: string where
  "uncased_letters = [CHR 0xAA, CHR 0xB5, CHR 0xBA, CHR 0xDF, CHR 0xFF]"

definition digit_characters :: string where
  "digit_characters =
     ''0123456789'' @ [CHR 0xB2, CHR 0xB3, CHR 0xB9, CHR 0xBC, CHR 0xBD, CHR 0xBE]"

text \<open>A word is made of letters, digits and underscores.\<close>

definition word_constituent :: "char \<Rightarrow> bool" where
  "word_constituent c =
     (c \<in> set (upper_letters @ lower_letters @ uncased_letters @ digit_characters @ ''_''))"

text \<open>Two texts are the same up to case when replacing capital by small letters makes them equal.\<close>

definition fold_case :: "char \<Rightarrow> char" where
  "fold_case c = (case map_of (zip upper_letters lower_letters) c of Some d \<Rightarrow> d | None \<Rightarrow> c)"

definition same_ignoring_case :: "string \<Rightarrow> string \<Rightarrow> bool" where
  "same_ignoring_case a b = (map fold_case a = map fold_case b)"

text \<open>
  A term occurs in a text as a whole word, case-insensitively, when the text splits into
  three parts of which the middle one is the term up to case, no constituent of a word
  stands right before it and none right after it.
\<close>

definition whole_word :: "string \<Rightarrow> string \<Rightarrow> bool" where
  "whole_word w text =
     (\<exists>pre mid post. text = pre @ mid @ post \<and> same_ignoring_case mid w
        \<and> (pre = [] \<or> \<not> word_constituent (last pre))
        \<and> (post = [] \<or> \<not> word_constituent (hd post)))"

text \<open>A term is a case-insensitive substring of a text when some part of the text equals it up to case.\<close>

definition ci_substring :: "string \<Rightarrow> string \<Rightarrow> bool" where
  "ci_substring w s = (\<exists>pre mid post. s = pre @ mid @ post \<and> py_lower mid = py_lower w)"

text \<open>An article whose only signal is a keyword that contains a lexicon term.\<close>

definition keyword_article :: article where
  "keyword_article =
     \<lparr>source = JStr ''NewsData.io'', title = JStr ''Digest'', description = JStr [],
      link = JNull, pub_date = JNull, keywords_of = JArr [JStr ''Scammers''], api_type = ''news''\<rparr>"

definition keyword_enriched :: enriched where
  "keyword_enriched =
     article.extend keyword_article
       (enriched.fields True [''scam''] ''negative2'' ''harmful2'' ''high risk scam language''
          ''SENTIMENT=negative2 INTENT=harmful2 REASON=high risk scam language'')"

section \<open>Strings: prefixes and substrings\<close>

lemma startswith_iff: "startswith s p \<longleftrightarrow> (\<exists>r. s = p @ r)"
  unfolding startswith_def
proof
  assume "take (length p) s = p"
  then have "s = p @ drop (length p) s" by (metis append_take_drop_id)
  then show "\<exists>r. s = p @ r" ..
next
  assume "\<exists>r. s = p @ r"
  then show "take (length p) s = p" by auto
qed

text \<open>\<^const>\<open>py_in\<close> is the substring relation.\<close>

lemma py_in_iff: "py_in sub s \<longleftrightarrow> (\<exists>pre post. s = pre @ sub @ post)"
proof (induction s)
  case Nil
  show ?case by auto
next
  case (Cons c cs)
  show ?case
  proof
    assume "py_in sub (c # cs)"
    then consider "startswith (c # cs) sub" | "py_in sub cs" by auto
    then show "\<exists>pre post. c # cs = pre @ sub @ post"
    proof cases
      case 1
      then obtain r where "c # cs = sub @ r" by (auto simp: startswith_iff)
      then have "c # cs = [] @ sub @ r" by simp
      then show ?thesis by blast
    next
      case 2
      then obtain pre post where "cs = pre @ sub @ post" using Cons.IH by auto
      then have "c # cs = (c # pre) @ sub @ post" by simp
      then show ?thesis by blast
    qed
  next
    assume "\<exists>pre post. c # cs = pre @ sub @ post"
    then obtain pre post where e: "c # cs = pre @ sub @ post" by auto
    show "py_in sub (c # cs)"
    proof (cases pre)
      case Nil
      then have "startswith (c # cs) sub" using e by (auto simp: startswith_iff)
      then show ?thesis by simp
    next
      case (Cons d pre')
      then have "cs = pre' @ sub @ post" using e by simp
      then have "py_in sub cs" using Cons.IH by blast
      then show ?thesis by simp
    qed
  qed
qed

text \<open>A token that does not contain the last character of a text lies before it.\<close>

lemma py_in_snoc:
  assumes "c \<notin> set sub" and "sub \<noteq> []" and "py_in sub (e @ [c])"
  shows "py_in sub e"
proof -
  from assms(3) obtain pre post where eq: "e @ [c] = pre @ sub @ post"
    by (auto simp: py_in_iff)
  have "post \<noteq> []"
  proof
    assume "post = []"
    with eq have "e @ [c] = pre @ sub" by simp
    with assms(2) have "last sub = c" by (metis last_appendR last_snoc)
    with assms(1,2) show False using last_in_set by blast
  qed
  then obtain post' where "post = post' @ [last post]"
    by (metis append_butlast_last_id)
  with eq have "e @ [c] = (pre @ sub @ post') @ [last post]" by simp
  then have "e = pre @ sub @ post'" by (metis append1_eq_conv)
  then show ?thesis by (auto simp: py_in_iff)
qed

section \<open>The classifier's reply, parsed\<close>

lemma parse_labels_absent:
  "\<not> py_in ''SENTIMENT='' r \<or> \<not> py_in ''INTENT='' r \<Longrightarrow> parse_labels r = ([], [], [])"
  by (auto simp: parse_labels_def)

lemma not_harmful_empty: "\<not> is_harmful []"
  by (simp add: is_harmful_def startswith_def)

text \<open>
  The error text of \<^const>\<open>fetch_from_gemini_sentiment_intent\<close> holds a token only if the
  message of the exception does.
\<close>

lemma placeholder_sentiment:
  "py_in ''SENTIMENT='' (''[Gemini API error: '' @ e @ '']'') \<Longrightarrow> py_in ''SENTIMENT='' e"
  using py_in_snoc [of "CHR '']''" "''SENTIMENT=''" e]
  by (simp add: startswith_def)

lemma placeholder_intent:
  "py_in ''INTENT='' (''[Gemini API error: '' @ e @ '']'') \<Longrightarrow> py_in ''INTENT='' e"
  using py_in_snoc [of "CHR '']''" "''INTENT=''" e]
  by (simp add: startswith_def)

text \<open>
  \<^bold>\<open>C6.\<close> The reply \<^verbatim>\<open>SENTIMENT=negative2 INTENT=harmful2 REASON=high risk scam language\<close>
  is parsed into the sentiment \<^verbatim>\<open>negative2\<close>, the intent \<^verbatim>\<open>harmful2\<close> and the reason
  \<^verbatim>\<open>high risk scam language\<close>, and the flag derived from that intent is true.
\<close>

theorem C6_parse_example:
  "parse_labels ''SENTIMENT=negative2 INTENT=harmful2 REASON=high risk scam language''
     = (''negative2'', ''harmful2'', ''high risk scam language'')
   \<and> is_harmful (fst (snd (parse_labels
        ''SENTIMENT=negative2 INTENT=harmful2 REASON=high risk scam language'')))"
  by (simp add: parse_labels_def is_harmful_def startswith_def alnum_def ascii_lower_def
      ascii_upper_def ascii_digits_def py_strip_def py_isspace_def)

section \<open>The categorizer\<close>

lemma categorize_one_fields:
  assumes "categorize_one rp g i a = Inr x"
  shows "(gemini_sentiment x, gemini_intent x, gemini_reason x) = parse_labels (gemini_raw x)"
    and "harmful x = is_harmful (gemini_intent x)"
    and "article.truncate x = a"
  using assms
  by (auto simp: categorize_one_def Let_def article.defs enriched.defs
      split: sum.splits)

text \<open>
  What the loop returns: the list it started with, followed by one enriched article for
  each input article, position by position.
\<close>

lemma categorize_loop_Inr:
  "categorize_loop rp g i as acc = Inr out \<Longrightarrow>
     \<exists>new. out = acc @ new \<and> length new = length as
           \<and> (\<forall>k<length as. categorize_one rp g (i + k) (as ! k) = Inr (new ! k))"
proof (induction as arbitrary: i acc)
  case Nil
  then show ?case by simp
next
  case (Cons a as)
  from Cons.prems obtain x where x: "categorize_one rp g i a = Inr x"
    and rest: "categorize_loop rp g (Suc i) as (acc @ [x]) = Inr out"
    by (auto split: sum.splits)
  from Cons.IH [OF rest] obtain new where new: "out = (acc @ [x]) @ new" "length new = length as"
    "\<forall>k<length as. categorize_one rp g (Suc i + k) (as ! k) = Inr (new ! k)" by blast
  have "\<forall>k<length (a # as). categorize_one rp g (i + k) ((a # as) ! k) = Inr ((x # new) ! k)"
  proof (intro allI impI)
    fix k assume "k < length (a # as)"
    then show "categorize_one rp g (i + k) ((a # as) ! k) = Inr ((x # new) ! k)"
      using x new(3) by (cases k) auto
  qed
  moreover have "out = acc @ (x # new)" using new(1) by simp
  moreover have "length (x # new) = length (a # as)" using new(2) by simp
  ultimately show ?case by blast
qed

lemma full_categorize_member:
  assumes "full_categorize rp g articles = Inr out" and "x \<in> set out"
  shows "\<exists>k<length articles. categorize_one rp g k (articles ! k) = Inr x"
proof -
  from assms(1) obtain new where new: "out = [] @ new" "length new = length articles"
    "\<forall>k<length articles. categorize_one rp g (0 + k) (articles ! k) = Inr (new ! k)"
    unfolding full_categorize_def using categorize_loop_Inr by blast
  from assms(2) new(1) obtain k where "k < length new" "new ! k = x"
    by (auto simp: in_set_conv_nth)
  with new show ?thesis by auto
qed

lemma example_run:
  "full_categorize example_repr example_gemini [scam_article, calm_article, scam_article]
     = Inr example_enriched"
  by code_simp

text \<open>
  \<^bold>\<open>C1.\<close> For every article that \<^const>\<open>full_categorize\<close> returns, the field \<open>harmful\<close> is true
  exactly when the intent label starts with \<^verbatim>\<open>harmful\<close>, and the intent label is the one
  parsed from the reply. So two enriched articles with the same intent label, of any two
  runs, carry the same flag, whatever their harmful words are.
\<close>

theorem C1_harmful_iff_intent_prefix:
  assumes "full_categorize rp g articles = Inr out" and "x \<in> set out"
  shows "(harmful x \<longleftrightarrow> startswith (gemini_intent x) ''harmful'')
       \<and> gemini_intent x = fst (snd (parse_labels (gemini_raw x)))
       \<and> (\<forall>rp' g' articles' out' y.
             full_categorize rp' g' articles' = Inr out' \<and> y \<in> set out'
               \<and> gemini_intent y = gemini_intent x
             \<longrightarrow> harmful y = harmful x)"
proof -
  have flag: "harmful y = startswith (gemini_intent y) ''harmful''"
    if "full_categorize rp' g' articles' = Inr out'" and "y \<in> set out'"
    for rp' g' articles' out' y
    using full_categorize_member [OF that] categorize_one_fields(2)
    by (auto simp: is_harmful_def)
  obtain k where "categorize_one rp g k (articles ! k) = Inr x"
    using full_categorize_member [OF assms] by blast
  from categorize_one_fields(1) [OF this]
  have "gemini_intent x = fst (snd (parse_labels (gemini_raw x)))"
    by (metis fst_conv snd_conv)
  then show ?thesis using flag [OF assms] flag by auto
qed

theorem C1_witness:
  "full_categorize example_repr example_gemini [scam_article, calm_article, scam_article]
     = Inr example_enriched
   \<and> harmful (example_enriched ! 0) \<and> \<not> harmful (example_enriched ! 2)
   \<and> harmful_words (example_enriched ! 0) = harmful_words (example_enriched ! 2)
   \<and> startswith (gemini_intent (example_enriched ! 0)) ''harmful''
   \<and> \<not> startswith (gemini_intent (example_enriched ! 2)) ''harmful''"
proof -
  have m0: "example_enriched ! 0 \<in> set example_enriched"
    and m2: "example_enriched ! 2 \<in> set example_enriched"
    by (simp_all add: example_enriched_def)
  have "harmful (example_enriched ! 0)" "\<not> harmful (example_enriched ! 2)"
    "harmful_words (example_enriched ! 0) = harmful_words (example_enriched ! 2)"
    by (simp_all add: example_enriched_def article.defs enriched.defs)
  then show ?thesis
    using example_run C1_harmful_iff_intent_prefix [OF example_run m0]
      C1_harmful_iff_intent_prefix [OF example_run m2]
    by simp
qed

text \<open>
  \<^bold>\<open>C2.\<close> The text that stands in for a failed call is not always free of the tokens:
  when the message of the exception quotes \<^verbatim>\<open>SENTIMENT=x INTENT=harmful1\<close>, the error text
  \<^verbatim>\<open>[Gemini API error: ...]\<close> passes the guard of line 196, is parsed like any reply, and
  the article is flagged harmful.
\<close>

theorem C2_counterexample:
  "quoting_gemini 0 ''. Rain'' ''None'' = Failed ''SENTIMENT=x INTENT=harmful1 in request''
   \<and> full_categorize example_repr quoting_gemini [calm_article] = Inr [quoting_enriched]
   \<and> gemini_raw quoting_enriched = ''[Gemini API error: SENTIMENT=x INTENT=harmful1 in request]''
   \<and> gemini_sentiment quoting_enriched = ''x''
   \<and> gemini_intent quoting_enriched = ''harmful1''
   \<and> harmful quoting_enriched"
proof -
  have "full_categorize example_repr quoting_gemini [calm_article] = Inr [quoting_enriched]"
    by code_simp
  then show ?thesis
    by (simp add: quoting_gemini_def quoting_enriched_def article.defs enriched.defs)
qed

text \<open>
  \<^bold>\<open>C2, as amended.\<close> A reply that lacks \<^verbatim>\<open>SENTIMENT=\<close> or lacks \<^verbatim>\<open>INTENT=\<close> is parsed into
  three empty strings, from which the flag is false. The text that stands in for a
  failed call, \<^verbatim>\<open>[Gemini API error: ...]\<close>, is such a reply whenever the message of the
  exception lacks one of the tokens. Hence every article returned by \<^const>\<open>full_categorize\<close>
  whose raw reply lacks a token has the three labels empty and is not harmful.
\<close>

theorem C2_missing_token_degrades:
  "(\<not> py_in ''SENTIMENT='' r \<or> \<not> py_in ''INTENT='' r
      \<longrightarrow> parse_labels r = ([], [], []) \<and> \<not> is_harmful (fst (snd (parse_labels r))))
   \<and> (g i text hw = Failed e \<and> (\<not> py_in ''SENTIMENT='' e \<or> \<not> py_in ''INTENT='' e)
      \<longrightarrow> fetch_from_gemini_sentiment_intent g i text hw = ''[Gemini API error: '' @ e @ '']''
          \<and> parse_labels (fetch_from_gemini_sentiment_intent g i text hw) = ([], [], []))
   \<and> (full_categorize rp g articles = Inr out \<and> x \<in> set out
        \<and> (\<not> py_in ''SENTIMENT='' (gemini_raw x) \<or> \<not> py_in ''INTENT='' (gemini_raw x))
      \<longrightarrow> gemini_sentiment x = [] \<and> gemini_intent x = [] \<and> gemini_reason x = []
          \<and> \<not> harmful x)"
proof (intro conjI impI)
  assume "\<not> py_in ''SENTIMENT='' r \<or> \<not> py_in ''INTENT='' r"
  then have "parse_labels r = ([], [], [])" by (rule parse_labels_absent)
  then show "parse_labels r = ([], [], [])"
    and "\<not> is_harmful (fst (snd (parse_labels r)))"
    using not_harmful_empty by simp_all
next
  assume a: "g i text hw = Failed e \<and> (\<not> py_in ''SENTIMENT='' e \<or> \<not> py_in ''INTENT='' e)"
  then show p: "fetch_from_gemini_sentiment_intent g i text hw = ''[Gemini API error: '' @ e @ '']''"
    by (simp add: fetch_from_gemini_sentiment_intent_def)
  from a have "\<not> py_in ''SENTIMENT='' (''[Gemini API error: '' @ e @ '']'')
      \<or> \<not> py_in ''INTENT='' (''[Gemini API error: '' @ e @ '']'')"
    using placeholder_sentiment placeholder_intent by blast
  then show "parse_labels (fetch_from_gemini_sentiment_intent g i text hw) = ([], [], [])"
    unfolding p by (rule parse_labels_absent)
next
  assume a: "full_categorize rp g articles = Inr out \<and> x \<in> set out
      \<and> (\<not> py_in ''SENTIMENT='' (gemini_raw x) \<or> \<not> py_in ''INTENT='' (gemini_raw x))"
  then obtain k where k: "categorize_one rp g k (articles ! k) = Inr x"
    using full_categorize_member by blast
  from a have "parse_labels (gemini_raw x) = ([], [], [])"
    using parse_labels_absent by blast
  with categorize_one_fields(1) [OF k]
  have e: "gemini_sentiment x = []" "gemini_intent x = []" "gemini_reason x = []" by simp_all
  then show "gemini_sentiment x = []" "gemini_intent x = []" "gemini_reason x = []"
    by simp_all
  show "\<not> harmful x"
    using categorize_one_fields(2) [OF k] e(2) not_harmful_empty by simp
qed

theorem C2_witness:
  "\<not> py_in ''SENTIMENT='' ''INTENT=harmful2 REASON=no sentiment given''
   \<and> parse_labels ''INTENT=harmful2 REASON=no sentiment given'' = ([], [], [])
   \<and> example_gemini 2 ''Bank scam. '' ''scam'' = Failed ''quota exceeded''
   \<and> \<not> py_in ''SENTIMENT='' ''quota exceeded''
   \<and> fetch_from_gemini_sentiment_intent example_gemini 2 ''Bank scam. '' ''scam''
       = ''[Gemini API error: quota exceeded]''
   \<and> full_categorize example_repr example_gemini [scam_article, calm_article, scam_article]
       = Inr example_enriched
   \<and> example_enriched ! 2 \<in> set example_enriched
   \<and> \<not> py_in ''SENTIMENT='' (gemini_raw (example_enriched ! 2))
   \<and> gemini_intent (example_enriched ! 2) = []
   \<and> \<not> harmful (example_enriched ! 2)"
proof -
  have r: "\<not> py_in ''SENTIMENT='' ''INTENT=harmful2 REASON=no sentiment given''"
    by (simp add: startswith_def)
  have f: "example_gemini 2 ''Bank scam. '' ''scam'' = Failed ''quota exceeded''"
    by (simp add: example_gemini_def)
  have e: "\<not> py_in ''SENTIMENT='' ''quota exceeded''"
    by (simp add: startswith_def)
  have m: "example_enriched ! 2 \<in> set example_enriched"
    by (simp add: example_enriched_def)
  have raw: "\<not> py_in ''SENTIMENT='' (gemini_raw (example_enriched ! 2))"
    by (simp add: example_enriched_def article.defs enriched.defs startswith_def)
  show ?thesis
    using r f e m raw example_run
      C2_missing_token_degrades [of "''INTENT=harmful2 REASON=no sentiment given''"
        example_gemini 2 "''Bank scam. ''" "''scam''" "''quota exceeded''"
        example_repr "[scam_article, calm_article, scam_article]" example_enriched
        "example_enriched ! 2"]
    by simp
qed

section \<open>Fetching and normalizing, characterized\<close>

lemma py_or_not_null: "w \<noteq> JNull \<Longrightarrow> py_or v w \<noteq> JNull"
  by (cases v) (auto simp: py_or_def)

lemma build_articles_Inr:
  "build_articles f items acc = Inr arts \<Longrightarrow>
     \<exists>new. arts = acc @ new \<and> list_all2 (\<lambda>item a. f item = Inr a) items new"
proof (induction items arbitrary: acc)
  case Nil
  then show ?case by simp
next
  case (Cons item items)
  from Cons.prems obtain a where a: "f item = Inr a"
    and rest: "build_articles f items (acc @ [a]) = Inr arts"
    by (auto split: sum.splits)
  from Cons.IH [OF rest] obtain new where "arts = (acc @ [a]) @ new"
    "list_all2 (\<lambda>item a. f item = Inr a) items new" by blast
  then have "arts = acc @ (a # new)"
    "list_all2 (\<lambda>item a. f item = Inr a) (item # items) (a # new)"
    using a by simp_all
  then show ?case by blast
qed

lemma normalize_Articles:
  assumes "normalize rp ty data = Articles arts"
  shows "\<exists>items. provider_items ty data = Inr items
           \<and> list_all2 (\<lambda>item a. item_article rp ty item = Inr a) items arts"
proof -
  have "\<exists>items. provider_items ty data = Inr items
          \<and> build_articles (item_article rp ty) items [] = Inr arts"
    using assms
    by (auto simp: normalize_def provider_items_def item_article_def built_def bind_err_def
        split: if_splits sum.splits)
  then show ?thesis using build_articles_Inr by fastforce
qed

lemma item_article_fields:
  assumes "item_article rp ty item = Inr a"
  shows "py_get item ''title'' JNull = Inr (title a)"
    and "description a \<noteq> JNull" and "keywords_of a \<noteq> JNull"
  using assms
  by (auto simp: item_article_def wikipedia_article_def newsdata_article_def
      newsapi_article_def bind_err_def py_or_not_null split: if_splits sum.splits)

lemma fetch_loop_Inr_iff:
  "fetch_loop net rp i apis q l c m acc = Inr out \<longleftrightarrow>
     (\<forall>p \<in> set (enumerate i apis). \<not> escapes net rp q l c m p)
     \<and> out = acc @ concat (map (contribution net rp q l c m) (enumerate i apis))"
proof (induction apis arbitrary: i acc)
  case Nil
  show ?case by auto
next
  case (Cons api apis)
  show ?case
  proof (cases "call_api net i api (build_params api q l c m)")
    case (Inl e)
    then show ?thesis
      using Cons.IH [of "Suc i" acc] by (simp add: escapes_def contribution_def)
  next
    case (Inr data)
    then show ?thesis
      using Cons.IH [of "Suc i"]
      by (cases "normalize rp (cfg_type api) data") (simp_all add: escapes_def contribution_def)
  qed
qed

lemma categorize_one_total:
  "categorizable a \<longleftrightarrow> (\<exists>x. categorize_one rp g i a = Inr x)"
  by (auto simp: categorizable_def str_or_falsy_def categorize_one_def compose_text_def Let_def
      split: sum.splits json.splits)

lemma categorize_loop_total:
  "\<forall>a \<in> set as. categorizable a \<Longrightarrow> \<exists>out. categorize_loop rp g i as acc = Inr out"
proof (induction as arbitrary: i acc)
  case Nil
  show ?case by simp
next
  case (Cons a as)
  then obtain x where "categorize_one rp g i a = Inr x"
    using categorize_one_total [of a rp g i] by auto
  then show ?case using Cons by simp
qed

lemma example_fetch:
  "fetch_all_news example_net example_repr example_configs ''scam'' ''en'' ''my'' 5
     = Inr [scam_article, calm_article, scam_article]"
  by code_simp

lemma example_newsdata:
  "normalize example_repr (Some ''newsdata'')
     (JObj [(''status'', JStr ''success''),
            (''results'', JArr [JObj [(''title'', JStr ''Bank scam''),
                                      (''source_id'', JStr ''NewsAPI'')]])])
     = Articles [scam_article]"
  by code_simp

lemma example_wikipedia:
  "normalize example_repr (Some ''wikipedia'')
     (JObj [(''query'', JObj [(''search'',
        JArr [JObj [(''snippet'', JStr ''<b>Rain</b>''), (''pageid'', JStr ''7'')]])])])
     = Articles [calm_article]"
  by code_simp

text \<open>
  \<^bold>\<open>C5.\<close> Whenever the normalizing code accepts a body, that is, ends with a list of
  articles, for whichever type of source, no article in the list has \<^verbatim>\<open>None\<close> as its
  description or as its keywords.
\<close>

theorem C5_description_keywords_never_null:
  assumes "normalize rp ty data = Articles arts" and "a \<in> set arts"
  shows "description a \<noteq> JNull \<and> keywords_of a \<noteq> JNull"
proof -
  from normalize_Articles [OF assms(1)] obtain items where
    "list_all2 (\<lambda>item a. item_article rp ty item = Inr a) items arts" by blast
  with assms(2) obtain item where "item_article rp ty item = Inr a"
    by (auto simp: list_all2_conv_all_nth in_set_conv_nth)
  then show ?thesis using item_article_fields(2,3) by blast
qed

theorem C5_witness:
  "normalize example_repr (Some ''newsdata'')
     (JObj [(''status'', JStr ''success''),
            (''results'', JArr [JObj [(''title'', JStr ''Bank scam''),
                                      (''source_id'', JStr ''NewsAPI'')]])])
     = Articles [scam_article]
   \<and> scam_article \<in> set [scam_article]
   \<and> description scam_article \<noteq> JNull \<and> keywords_of scam_article \<noteq> JNull"
proof -
  have m: "scam_article \<in> set [scam_article]" by simp
  show ?thesis
    using example_newsdata m C5_description_keywords_never_null [OF example_newsdata m]
    by simp
qed

text \<open>
  \<^bold>\<open>C7.\<close> The title is not always a string: a Wikipedia hit without a \<^verbatim>\<open>title\<close> key gives
  an article whose title is \<^verbatim>\<open>None\<close>.
\<close>

theorem C7_counterexample:
  "normalize example_repr (Some ''wikipedia'')
     (JObj [(''query'', JObj [(''search'',
        JArr [JObj [(''snippet'', JStr ''<b>Rain</b>''), (''pageid'', JStr ''7'')]])])])
     = Articles [calm_article]
   \<and> title calm_article = JNull"
  using example_wikipedia by (simp add: calm_article_def)

text \<open>
  \<^bold>\<open>C7, as amended.\<close> For all three types of source the title of each article is what
  \<^verbatim>\<open>item.get("title")\<close> gives on the provider's record at the same position: the value the
  provider sent, unchanged, and \<^verbatim>\<open>None\<close> when the record has no title.
\<close>

theorem C7_title_is_provider_value:
  assumes "normalize rp ty data = Articles arts"
  shows "\<exists>items. provider_items ty data = Inr items
           \<and> list_all2 (\<lambda>item a. py_get item ''title'' JNull = Inr (title a)) items arts"
proof -
  from normalize_Articles [OF assms] obtain items where
    items: "provider_items ty data = Inr items"
    and all: "list_all2 (\<lambda>item a. item_article rp ty item = Inr a) items arts" by blast
  have "list_all2 (\<lambda>item a. py_get item ''title'' JNull = Inr (title a)) items arts"
    using all item_article_fields(1) by (rule list_all2_mono)
  with items show ?thesis by blast
qed

theorem C7_witness:
  "normalize example_repr (Some ''wikipedia'')
     (JObj [(''query'', JObj [(''search'',
        JArr [JObj [(''snippet'', JStr ''<b>Rain</b>''), (''pageid'', JStr ''7'')]])])])
     = Articles [calm_article]
   \<and> py_get (JObj [(''snippet'', JStr ''<b>Rain</b>''), (''pageid'', JStr ''7'')]) ''title'' JNull
       = Inr (title calm_article)"
  using example_wikipedia C7_title_is_provider_value [OF example_wikipedia]
  by (simp add: provider_items_def items_of_def bind_err_def calm_article_def)

text \<open>
  \<^bold>\<open>C10.\<close> For a source that is neither \<^verbatim>\<open>wikipedia\<close> nor \<^verbatim>\<open>newsdata\<close> (NewsAPI), a fetched
  body whose top-level \<^verbatim>\<open>status\<close> is not \<^verbatim>\<open>ok\<close> is discarded with the NewsAPI warning: the
  source adds nothing and the loop goes on with the list of articles unchanged. The
  \<^verbatim>\<open>newsdata\<close> branch does the same with its own sentinel \<^verbatim>\<open>success\<close>.
\<close>

theorem C10_newsapi_status_sentinel:
  assumes "cfg_type api \<noteq> Some ''wikipedia''" and "cfg_type api \<noteq> Some ''newsdata''"
    and "call_api net i api (build_params api q l c m) = Inr (JObj kvs)"
    and "map_of kvs ''status'' \<noteq> Some (JStr ''ok'')"
  shows "normalize rp (cfg_type api) (JObj kvs) = Discarded NewsAPI_non_ok
       \<and> contribution net rp q l c m (i, api) = []
       \<and> fetch_loop net rp i (api # apis) q l c m all_articles
           = fetch_loop net rp (Suc i) apis q l c m all_articles
       \<and> (map_of kvs ''status'' \<noteq> Some (JStr ''success'')
            \<longrightarrow> normalize rp (Some ''newsdata'') (JObj kvs) = Discarded NewsData_non_success)"
proof -
  have n: "normalize rp (cfg_type api) (JObj kvs) = Discarded NewsAPI_non_ok"
    using assms(1,2,4) by (auto simp: normalize_def split: option.splits)
  have d: "normalize rp (Some ''newsdata'') (JObj kvs) = Discarded NewsData_non_success"
    if "map_of kvs ''status'' \<noteq> Some (JStr ''success'')"
    using that by (auto simp: normalize_def split: option.splits)
  show ?thesis using n d assms(3) by (simp add: contribution_def)
qed

theorem C10_witness:
  "cfg_type newsapi_config \<noteq> Some ''wikipedia'' \<and> cfg_type newsapi_config \<noteq> Some ''newsdata''
   \<and> call_api error_status_net 0 newsapi_config (build_params newsapi_config ''scam'' ''en'' ''my'' 5)
       = Inr (JObj [(''status'', JStr ''error''), (''code'', JStr ''apiKeyInvalid'')])
   \<and> normalize example_repr (cfg_type newsapi_config)
        (JObj [(''status'', JStr ''error''), (''code'', JStr ''apiKeyInvalid'')])
       = Discarded NewsAPI_non_ok
   \<and> fetch_loop error_status_net example_repr 0 [newsapi_config] ''scam'' ''en'' ''my'' 5 [calm_article]
       = Inr [calm_article]"
proof -
  have t: "cfg_type newsapi_config \<noteq> Some ''wikipedia''" "cfg_type newsapi_config \<noteq> Some ''newsdata''"
    by (simp_all add: newsapi_config_def)
  have c: "call_api error_status_net 0 newsapi_config (build_params newsapi_config ''scam'' ''en'' ''my'' 5)
       = Inr (JObj [(''status'', JStr ''error''), (''code'', JStr ''apiKeyInvalid'')])"
    by (simp add: call_api_def error_status_net_def newsapi_config_def)
  have s: "map_of [(''status'', JStr ''error''), (''code'', JStr ''apiKeyInvalid'')] ''status''
      \<noteq> Some (JStr ''ok'')" by simp
  show ?thesis
    using t c C10_newsapi_status_sentinel [OF t c s, of example_repr "[]" "[calm_article]"]
    by simp
qed

lemma fetch_all_news_Inr_iff:
  "fetch_all_news net rp apis q l c m = Inr out \<longleftrightarrow>
     (\<forall>p \<in> set (enumerate 0 apis). \<not> escapes net rp q l c m p)
     \<and> out = concat (map (contribution net rp q l c m) (enumerate 0 apis))"
  unfolding fetch_all_news_def using fetch_loop_Inr_iff [of net rp 0 apis q l c m "[]" out]
  by simp

lemma enumerate_split:
  assumes "k < length xs"
  shows "enumerate 0 xs
     = enumerate 0 (take k xs) @ (k, xs ! k) # enumerate (Suc k) (drop (Suc k) xs)"
proof -
  have "xs = take k xs @ xs ! k # drop (Suc k) xs"
    using assms by (rule id_take_nth_drop)
  then have "enumerate 0 xs = enumerate 0 (take k xs @ xs ! k # drop (Suc k) xs)" by simp
  also have "\<dots> = enumerate 0 (take k xs) @ enumerate (0 + length (take k xs)) (xs ! k # drop (Suc k) xs)"
    by (rule enumerate_append_eq)
  also have "\<dots> = enumerate 0 (take k xs) @ (k, xs ! k) # enumerate (Suc k) (drop (Suc k) xs)"
    using assms by simp
  finally show ?thesis .
qed

text \<open>
  \<^bold>\<open>C3.\<close> One failed fetch does not always leave the articles of the other sources:
  with NewsAPI timing out and NewsData.io answering \<^verbatim>\<open>{"status": "success", "results": null}\<close>,
  the \<^verbatim>\<open>for\<close> over \<^verbatim>\<open>None\<close> raises \<^verbatim>\<open>TypeError\<close> outside the \<^verbatim>\<open>try\<close>, and the exception leaves
  \<^verbatim>\<open>fetch_all_news\<close>.
\<close>

theorem C3_counterexample:
  "call_api null_results_net 0 newsapi_config
       (build_params newsapi_config ''scam'' ''en'' ''my'' 5) = Inl ''Read timed out''
   \<and> call_api null_results_net 1 newsdata_config
       (build_params newsdata_config ''scam'' ''en'' ''my'' 5)
       = Inr (JObj [(''status'', JStr ''success''), (''results'', JNull)])
   \<and> fetch_all_news null_results_net example_repr [newsapi_config, newsdata_config]
       ''scam'' ''en'' ''my'' 5 = Inl TypeError"
  by code_simp

text \<open>
  \<^bold>\<open>C3, as amended.\<close> If the fetch of the source at position \<open>k\<close> fails, and the bodies of
  the other sources do not make the normalizing code raise, then \<^verbatim>\<open>fetch_all_news\<close> returns
  the articles of the other sources, concatenated in the order of the configurations,
  and the failed source adds none.
\<close>

theorem C3_one_failure_tolerated:
  assumes "k < length api_configs"
    and "call_api net k (api_configs ! k) (build_params (api_configs ! k) q l c m) = Inl e"
    and "\<forall>p \<in> set (enumerate 0 (take k api_configs)
                    @ enumerate (Suc k) (drop (Suc k) api_configs)).
           \<not> escapes net rp q l c m p"
  shows "fetch_all_news net rp api_configs q l c m
           = Inr (concat (map (contribution net rp q l c m)
                   (enumerate 0 (take k api_configs)
                    @ enumerate (Suc k) (drop (Suc k) api_configs))))
       \<and> contribution net rp q l c m (k, api_configs ! k) = []"
proof -
  have c: "contribution net rp q l c m (k, api_configs ! k) = []"
    and e: "\<not> escapes net rp q l c m (k, api_configs ! k)"
    using assms(2) by (simp_all add: contribution_def escapes_def)
  have "\<forall>p \<in> set (enumerate 0 api_configs). \<not> escapes net rp q l c m p"
    using assms(3) e unfolding enumerate_split [OF assms(1)] by auto
  moreover have "concat (map (contribution net rp q l c m) (enumerate 0 api_configs))
      = concat (map (contribution net rp q l c m)
          (enumerate 0 (take k api_configs) @ enumerate (Suc k) (drop (Suc k) api_configs)))"
    unfolding enumerate_split [OF assms(1)] using c by simp
  ultimately show ?thesis using c fetch_all_news_Inr_iff by metis
qed

theorem C3_witness:
  "0 < length example_configs
   \<and> call_api example_net 0 (example_configs ! 0)
       (build_params (example_configs ! 0) ''scam'' ''en'' ''my'' 5) = Inl ''Read timed out''
   \<and> fetch_all_news example_net example_repr example_configs ''scam'' ''en'' ''my'' 5
       = Inr [scam_article, calm_article, scam_article]
   \<and> concat (map (contribution example_net example_repr ''scam'' ''en'' ''my'' 5)
        (enumerate 0 (take 0 example_configs) @ enumerate (Suc 0) (drop (Suc 0) example_configs)))
       = [scam_article, calm_article, scam_article]"
proof -
  have k: "0 < length example_configs" by (simp add: example_configs_def)
  have f: "call_api example_net 0 (example_configs ! 0)
       (build_params (example_configs ! 0) ''scam'' ''en'' ''my'' 5) = Inl ''Read timed out''"
    by (simp add: example_configs_def call_api_def newsapi_config_def example_net_def)
  have n: "\<forall>p \<in> set (enumerate 0 (take 0 example_configs)
                    @ enumerate (Suc 0) (drop (Suc 0) example_configs)).
           \<not> escapes example_net example_repr ''scam'' ''en'' ''my'' 5 p"
    by code_simp
  show ?thesis
    using k f example_fetch C3_one_failure_tolerated [OF k f n]
    by simp
qed

lemma full_categorize_positions:
  assumes "full_categorize rp g arts = Inr out"
  shows "length out = length arts \<and> map article.truncate out = arts"
proof -
  from assms obtain new where new: "out = [] @ new" "length new = length arts"
    "\<forall>k<length arts. categorize_one rp g (0 + k) (arts ! k) = Inr (new ! k)"
    unfolding full_categorize_def using categorize_loop_Inr by blast
  have "article.truncate (out ! k) = arts ! k" if "k < length arts" for k
    using new that categorize_one_fields(3) by auto
  then have "map article.truncate out = arts"
    using new(1,2) by (auto simp: list_eq_iff_nth_eq)
  then show ?thesis using new by simp
qed

text \<open>
  \<^bold>\<open>C9.\<close> The list that \<^verbatim>\<open>fetch_all_news\<close> returns is the concatenation, in the order of the
  configurations, of what each source adds; what a source adds is one article per
  provider record, in the provider's order; and the list that \<^verbatim>\<open>full_categorize\<close> returns
  has the length of its input and, position by position, the input article under the
  six added keys. On articles whose title, description and keywords have the types the
  loop body can handle, \<^verbatim>\<open>full_categorize\<close> does return.
\<close>

theorem C9_order_preserved:
  "(fetch_all_news net rp api_configs q l c m = Inr arts
      \<longrightarrow> arts = concat (map (contribution net rp q l c m) (enumerate 0 api_configs)))
   \<and> (normalize rp ty data = Articles articles
      \<longrightarrow> (\<exists>items. provider_items ty data = Inr items
             \<and> list_all2 (\<lambda>item a. item_article rp ty item = Inr a) items articles))
   \<and> (full_categorize rp g arts = Inr out
      \<longrightarrow> length out = length arts \<and> map article.truncate out = arts)
   \<and> ((\<forall>a \<in> set arts. categorizable a) \<longrightarrow> (\<exists>out. full_categorize rp g arts = Inr out))"
  using fetch_all_news_Inr_iff [of net rp api_configs q l c m arts]
    normalize_Articles [of rp ty data articles]
    full_categorize_positions [of rp g arts out]
    categorize_loop_total [of arts rp g 0 "[]"]
  unfolding full_categorize_def [symmetric]
  by blast

theorem C9_witness:
  "fetch_all_news example_net example_repr example_configs ''scam'' ''en'' ''my'' 5
     = Inr [scam_article, calm_article, scam_article]
   \<and> [scam_article, calm_article, scam_article]
       = concat (map (contribution example_net example_repr ''scam'' ''en'' ''my'' 5)
           (enumerate 0 example_configs))
   \<and> full_categorize example_repr example_gemini [scam_article, calm_article, scam_article]
       = Inr example_enriched
   \<and> length example_enriched = 3
   \<and> map article.truncate example_enriched = [scam_article, calm_article, scam_article]
   \<and> categorizable scam_article \<and> categorizable calm_article"
proof -
  have c: "categorizable scam_article" "categorizable calm_article"
    by (simp_all add: categorizable_def str_or_falsy_def py_or_def scam_article_def
        calm_article_def)
  show ?thesis
    using c example_fetch example_run example_wikipedia
      C9_order_preserved [of example_net example_repr example_configs "''scam''" "''en''"
        "''my''" 5 "[scam_article, calm_article, scam_article]" "Some ''wikipedia''"
        "JObj [(''query'', JObj [(''search'',
           JArr [JObj [(''snippet'', JStr ''<b>Rain</b>''), (''pageid'', JStr ''7'')]])])]"
        "[calm_article]" example_gemini example_enriched]
    by simp
qed

section \<open>The detector finds whole words\<close>

lemma lexicon_check:
  "list_all (\<lambda>w. w \<noteq> [] \<and> list_all (\<lambda>c. c \<in> set ascii_lower) w) HARMFUL_KEYWORDS"
  by code_simp

lemma lexicon_letters:
  "w \<in> set HARMFUL_KEYWORDS \<Longrightarrow> w \<noteq> [] \<and> set w \<subseteq> set ascii_lower"
  using lexicon_check by (auto simp: list_all_iff)

lemma lower_check: "list_all (\<lambda>c. lower_char c = c) ascii_lower"
  by code_simp

lemma lower_char_fixed: "c \<in> set ascii_lower \<Longrightarrow> lower_char c = c"
  using lower_check by (simp add: list_all_iff)

lemma py_lower_fixed: "set w \<subseteq> set ascii_lower \<Longrightarrow> py_lower w = w"
  unfolding py_lower_def using lower_char_fixed by (induction w) auto

text \<open>
  The model of the regular expression and the lists of the specification describe the
  same characters; both facts are checked on each of the 256 characters.
\<close>

lemma word_char_agrees: "\<forall>c. word_char c = word_constituent c"
  by code_simp

lemma lower_char_agrees: "\<forall>c. lower_char c = fold_case c"
  by code_simp

lemma ascii_lower_check: "list_all (\<lambda>c. c \<in> set lower_letters) ascii_lower"
  by code_simp

lemma lower_char_letter:
  assumes "lower_char c \<in> set ascii_lower"
  shows "word_char c"
proof -
  have f: "fold_case c \<in> set ascii_lower" using assms lower_char_agrees by simp
  have "word_constituent c"
  proof (cases "map_of (zip upper_letters lower_letters) c")
    case None
    then have "fold_case c = c" by (simp add: fold_case_def)
    with f have "c \<in> set lower_letters" using ascii_lower_check by (simp add: list_all_iff)
    then show ?thesis by (simp add: word_constituent_def)
  next
    case (Some d)
    then have "(c, d) \<in> set (zip upper_letters lower_letters)" by (rule map_of_SomeD)
    then have "c \<in> set upper_letters" by (rule set_zip_leftD)
    then show ?thesis by (simp add: word_constituent_def)
  qed
  then show ?thesis using word_char_agrees by simp
qed

text \<open>Hence the whole-word relation of the specification, in terms of the model of the code.\<close>

lemma whole_word_code:
  "whole_word w s \<longleftrightarrow>
     (\<exists>pre mid post. s = pre @ mid @ post \<and> py_lower mid = py_lower w
        \<and> (pre = [] \<or> \<not> word_char (last pre))
        \<and> (post = [] \<or> \<not> word_char (hd post)))"
proof -
  have "fold_case = lower_char" using lower_char_agrees by auto
  then have "same_ignoring_case mid w \<longleftrightarrow> py_lower mid = py_lower w" for mid
    by (simp add: same_ignoring_case_def py_lower_def)
  moreover have "word_constituent = word_char" using word_char_agrees by auto
  ultimately show ?thesis unfolding whole_word_def by simp
qed

lemma py_lower_length: "length (py_lower s) = length s"
  by (simp add: py_lower_def)

text \<open>A text that equals a word of lowercase letters up to case starts and ends with a word character.\<close>

lemma ci_equal_ends:
  assumes "w \<noteq> []" and "set w \<subseteq> set ascii_lower" and "py_lower mid = py_lower w"
  shows "mid \<noteq> [] \<and> word_char (hd mid) \<and> word_char (last mid)"
proof -
  have eq: "map lower_char mid = w"
    using assms(2,3) py_lower_fixed by (simp add: py_lower_def)
  with assms(1) have ne: "mid \<noteq> []" by auto
  have "lower_char (hd mid) = hd w" "lower_char (last mid) = last w"
    using eq ne by (auto simp: hd_map last_map)
  moreover have "hd w \<in> set ascii_lower" "last w \<in> set ascii_lower"
    using assms(1,2) by auto
  ultimately show ?thesis using ne lower_char_letter by simp
qed

lemma match_at_iff:
  assumes "w \<noteq> []" and "set w \<subseteq> set ascii_lower"
  shows "match_at w prev rest \<longleftrightarrow>
     (\<exists>mid post. rest = mid @ post \<and> py_lower mid = py_lower w \<and> \<not> word_opt prev
        \<and> (post = [] \<or> \<not> word_char (hd post)))"
proof
  assume m: "match_at w prev rest"
  define mid where "mid = take (length w) rest"
  define post where "post = drop (length w) rest"
  have r: "rest = mid @ post" by (simp add: mid_def post_def)
  have l: "py_lower mid = py_lower w" using m by (simp add: match_at_def mid_def)
  from ci_equal_ends [OF assms l]
  have ends: "mid \<noteq> []" "word_char (hd mid)" "word_char (last mid)" by simp_all
  have "first_opt rest = Some (hd mid)" using r ends(1) by (cases mid) (auto simp: first_opt_def)
  moreover have "boundary prev (first_opt rest)" using m by (simp add: match_at_def)
  ultimately have p: "\<not> word_opt prev" using ends(2) by (simp add: boundary_def word_opt_def)
  have "boundary (last_opt prev mid) (first_opt post)"
    using m by (simp add: match_at_def mid_def post_def)
  then have "\<not> word_opt (first_opt post)"
    using ends by (simp add: boundary_def last_opt_def word_opt_def)
  then have "post = [] \<or> \<not> word_char (hd post)"
    by (cases post) (auto simp: first_opt_def word_opt_def)
  with r l p show "\<exists>mid post. rest = mid @ post \<and> py_lower mid = py_lower w \<and> \<not> word_opt prev
        \<and> (post = [] \<or> \<not> word_char (hd post))" by blast
next
  assume "\<exists>mid post. rest = mid @ post \<and> py_lower mid = py_lower w \<and> \<not> word_opt prev
        \<and> (post = [] \<or> \<not> word_char (hd post))"
  then obtain mid post where r: "rest = mid @ post" and l: "py_lower mid = py_lower w"
    and p: "\<not> word_opt prev" and q: "post = [] \<or> \<not> word_char (hd post)" by blast
  from ci_equal_ends [OF assms l]
  have ends: "mid \<noteq> []" "word_char (hd mid)" "word_char (last mid)" by simp_all
  have len: "length mid = length w" using l py_lower_length by metis
  have t: "take (length w) rest = mid" "drop (length w) rest = post"
    using r len by simp_all
  have f: "first_opt rest = Some (hd mid)" using r ends(1) by (cases mid) (auto simp: first_opt_def)
  have g: "\<not> word_opt (first_opt post)"
    using q by (cases post) (auto simp: first_opt_def word_opt_def)
  show "match_at w prev rest"
    unfolding match_at_def t f
    using p g ends l len r by (simp add: boundary_def word_opt_def last_opt_def)
qed

lemma word_search_iff:
  assumes "w \<noteq> []" and "set w \<subseteq> set ascii_lower"
  shows "word_search w prev s \<longleftrightarrow>
     (\<exists>pre mid post. s = pre @ mid @ post \<and> py_lower mid = py_lower w
        \<and> \<not> word_opt (last_opt prev pre)
        \<and> (post = [] \<or> \<not> word_char (hd post)))"
proof (induction s arbitrary: prev)
  case Nil
  have "\<not> match_at w prev []" using assms(1) by (simp add: match_at_def)
  moreover have "py_lower [] \<noteq> py_lower w" using assms(1) by (simp add: py_lower_def)
  ultimately show ?case by auto
next
  case (Cons c cs)
  let ?R = "\<lambda>prev s. \<exists>pre mid post. s = pre @ mid @ post \<and> py_lower mid = py_lower w
        \<and> \<not> word_opt (last_opt prev pre) \<and> (post = [] \<or> \<not> word_char (hd post))"
  show ?case
  proof
    assume "word_search w prev (c # cs)"
    then consider "match_at w prev (c # cs)" | "word_search w (Some c) cs" by auto
    then show "?R prev (c # cs)"
    proof cases
      case 1
      then obtain mid post where "c # cs = [] @ mid @ post" "py_lower mid = py_lower w"
        "\<not> word_opt (last_opt prev [])" "post = [] \<or> \<not> word_char (hd post)"
        using match_at_iff [OF assms] by (auto simp: last_opt_def)
      then show ?thesis by blast
    next
      case 2
      then obtain pre mid post where "cs = pre @ mid @ post" "py_lower mid = py_lower w"
        "\<not> word_opt (last_opt (Some c) pre)" "post = [] \<or> \<not> word_char (hd post)"
        using Cons.IH by blast
      then have "c # cs = (c # pre) @ mid @ post" "\<not> word_opt (last_opt prev (c # pre))"
        by (auto simp: last_opt_def)
      then show ?thesis
        using \<open>py_lower mid = py_lower w\<close> \<open>post = [] \<or> \<not> word_char (hd post)\<close> by blast
    qed
  next
    assume "?R prev (c # cs)"
    then obtain pre mid post where r: "c # cs = pre @ mid @ post" and l: "py_lower mid = py_lower w"
      and p: "\<not> word_opt (last_opt prev pre)" and q: "post = [] \<or> \<not> word_char (hd post)"
      by blast
    show "word_search w prev (c # cs)"
    proof (cases pre)
      case Nil
      then have "match_at w prev (c # cs)"
        using r l p q match_at_iff [OF assms, of prev "c # cs"] by (auto simp: last_opt_def)
      then show ?thesis by simp
    next
      case (Cons d pre')
      then have "cs = pre' @ mid @ post" "\<not> word_opt (last_opt (Some c) pre')"
        using r p by (auto simp: last_opt_def split: if_splits)
      then have "word_search w (Some c) cs" using Cons.IH l q by blast
      then show ?thesis by simp
    qed
  qed
qed

lemma word_search_whole_word:
  assumes "w \<in> set HARMFUL_KEYWORDS"
  shows "word_search w None text \<longleftrightarrow> whole_word w text"
proof -
  have a: "w \<noteq> []" "set w \<subseteq> set ascii_lower" using lexicon_letters [OF assms] by simp_all
  have "\<not> word_opt (last_opt None pre) \<longleftrightarrow> pre = [] \<or> \<not> word_char (last pre)" for pre
    by (simp add: last_opt_def word_opt_def)
  then show ?thesis
    unfolding whole_word_code word_search_iff [OF a] by simp
qed

lemma detect_loop_set:
  "set (detect_loop ws text found)
     = set found \<union> {py_lower w | w. w \<in> set ws \<and> word_search w None text}"
  by (induction ws arbitrary: found) auto

lemma detect_loop_distinct: "distinct found \<Longrightarrow> distinct (detect_loop ws text found)"
  by (induction ws arbitrary: found) auto

lemma whole_word_empty_text: "w \<noteq> [] \<Longrightarrow> \<not> whole_word w []"
  by (auto simp: whole_word_code py_lower_def)

lemma detect_set:
  "set (detect_harmful_words rp (JStr s)) = {w \<in> set HARMFUL_KEYWORDS. whole_word w s}"
proof (cases "s = []")
  case True
  have "\<not> whole_word w []" if "w \<in> set HARMFUL_KEYWORDS" for w
    using lexicon_letters [OF that] whole_word_empty_text by blast
  then have "{w \<in> set HARMFUL_KEYWORDS. whole_word w []} = {}" by blast
  then show ?thesis using True by (simp add: detect_harmful_words_def)
next
  case False
  have "py_lower w = w" if "w \<in> set HARMFUL_KEYWORDS" for w
    using lexicon_letters [OF that] py_lower_fixed by blast
  then have "{py_lower w | w. w \<in> set HARMFUL_KEYWORDS \<and> word_search w None s}
      = {w \<in> set HARMFUL_KEYWORDS. word_search w None s}" by force
  also have "\<dots> = {w \<in> set HARMFUL_KEYWORDS. whole_word w s}"
    using word_search_whole_word by blast
  finally have "{py_lower w | w. w \<in> set HARMFUL_KEYWORDS \<and> word_search w None s}
      = {w \<in> set HARMFUL_KEYWORDS. whole_word w s}" .
  moreover have "detect_harmful_words rp (JStr s) = detect_loop HARMFUL_KEYWORDS s []"
    using False by (simp add: detect_harmful_words_def)
  ultimately show ?thesis by (simp add: detect_loop_set)
qed

lemma detect_distinct: "distinct (detect_harmful_words rp v)"
  by (simp add: detect_harmful_words_def detect_loop_distinct)

lemma detect_scam_alert:
  "detect_harmful_words rp (JStr ''This is a scam alert'') = [''scam'']"
  by code_simp

lemma detect_scammer: "detect_harmful_words rp (JStr ''scammer'') = []"
  by code_simp

lemma detect_capitals: "detect_harmful_words rp (JStr ''SCAM alert'') = [''scam'']"
  by code_simp

lemma detect_after_accent: "detect_harmful_words rp (JStr (CHR 0xE9 # ''scam'')) = []"
  by code_simp

text \<open>
  \<^bold>\<open>C4.\<close> On every text, \<^verbatim>\<open>detect_harmful_words\<close> returns, without repetition, exactly the
  lexicon terms that occur in the text as whole words, case-insensitively. On
  \<^verbatim>\<open>This is a scam alert\<close> the result is the one term \<^verbatim>\<open>scam\<close>; on \<^verbatim>\<open>scammer\<close> the term
  \<^verbatim>\<open>scam\<close> is not returned. Capitals are found (\<^verbatim>\<open>SCAM alert\<close>), and an accented letter
  right before the term (0xE9, e with acute accent) makes it part of a longer word.
\<close>

theorem C4_whole_word_detection:
  "set (detect_harmful_words rp (JStr s)) = {w \<in> set HARMFUL_KEYWORDS. whole_word w s}
   \<and> distinct (detect_harmful_words rp (JStr s))
   \<and> detect_harmful_words rp (JStr ''This is a scam alert'') = [''scam'']
   \<and> ''scam'' \<notin> set (detect_harmful_words rp (JStr ''scammer''))
   \<and> detect_harmful_words rp (JStr ''SCAM alert'') = [''scam'']
   \<and> detect_harmful_words rp (JStr (CHR 0xE9 # ''scam'')) = []"
  using detect_set detect_distinct detect_scam_alert detect_scammer detect_capitals
    detect_after_accent
  by simp

theorem C4_witness:
  "set (detect_harmful_words example_repr (JStr ''This is a scam alert'')) = {''scam''}
   \<and> whole_word ''scam'' ''This is a scam alert''
   \<and> whole_word ''scam'' ''SCAM alert''
   \<and> \<not> whole_word ''scam'' ''scammer''
   \<and> \<not> whole_word ''scam'' (CHR 0xE9 # ''scam'')"
proof -
  have m: "''scam'' \<in> set HARMFUL_KEYWORDS" by (simp add: HARMFUL_KEYWORDS_def)
  have a: "set (detect_harmful_words example_repr (JStr ''This is a scam alert'')) = {''scam''}"
    by (simp add: detect_scam_alert)
  have b: "set (detect_harmful_words example_repr (JStr ''scammer'')) = {}"
    by (simp add: detect_scammer)
  have c: "set (detect_harmful_words example_repr (JStr ''SCAM alert'')) = {''scam''}"
    by (simp add: detect_capitals)
  have d: "set (detect_harmful_words example_repr (JStr (CHR 0xE9 # ''scam''))) = {}"
    by (simp add: detect_after_accent)
  have "{''scam''} = {w \<in> set HARMFUL_KEYWORDS. whole_word w ''This is a scam alert''}"
    using a C4_whole_word_detection [of example_repr "''This is a scam alert''"] by metis
  then have w1: "whole_word ''scam'' ''This is a scam alert''" by blast
  have "{} = {w \<in> set HARMFUL_KEYWORDS. whole_word w ''scammer''}"
    using b C4_whole_word_detection [of example_repr "''scammer''"] by metis
  then have w2: "\<not> whole_word ''scam'' ''scammer''" using m by blast
  have "{''scam''} = {w \<in> set HARMFUL_KEYWORDS. whole_word w ''SCAM alert''}"
    using c C4_whole_word_detection [of example_repr "''SCAM alert''"] by metis
  then have w3: "whole_word ''scam'' ''SCAM alert''" by blast
  have "{} = {w \<in> set HARMFUL_KEYWORDS. whole_word w (CHR 0xE9 # ''scam'')}"
    using d C4_whole_word_detection [of example_repr "CHR 0xE9 # ''scam''"] by metis
  then have w4: "\<not> whole_word ''scam'' (CHR 0xE9 # ''scam'')" using m by blast
  show ?thesis using a w1 w2 w3 w4 by blast
qed

section \<open>The keyword scan finds substrings\<close>

lemma py_in_lower_iff:
  assumes "set w \<subseteq> set ascii_lower"
  shows "py_in w (py_lower s) \<longleftrightarrow> ci_substring w s"
proof -
  have w: "py_lower w = w" using assms by (rule py_lower_fixed)
  show ?thesis
  proof
    assume "py_in w (py_lower s)"
    then obtain p q where "map lower_char s = p @ w @ q"
      by (auto simp: py_in_iff py_lower_def)
    then obtain pre rest where s1: "s = pre @ rest" and "w @ q = map lower_char rest"
      by (auto simp: map_eq_append_conv)
    then obtain mid post where "rest = mid @ post" and "w = map lower_char mid"
      by (auto simp: append_eq_map_conv)
    then have "s = pre @ mid @ post" "py_lower mid = py_lower w"
      using s1 w by (simp_all add: py_lower_def)
    then show "ci_substring w s" unfolding ci_substring_def by blast
  next
    assume "ci_substring w s"
    then obtain pre mid post where "s = pre @ mid @ post" "py_lower mid = py_lower w"
      unfolding ci_substring_def by blast
    then have "py_lower s = py_lower pre @ w @ py_lower post"
      using w by (simp add: py_lower_def)
    then show "py_in w (py_lower s)" using py_in_iff by blast
  qed
qed

lemma keyword_hits_set:
  "set (keyword_hits rp kws)
     = {w \<in> set HARMFUL_KEYWORDS. \<exists>kw \<in> set kws. ci_substring w (py_str rp kw)}"
proof -
  have "py_in w (py_lower s) \<longleftrightarrow> ci_substring w s" if "w \<in> set HARMFUL_KEYWORDS" for w s
    using lexicon_letters [OF that] py_in_lower_iff by blast
  then show ?thesis by (auto simp: keyword_hits_def)
qed

lemma categorize_one_words:
  assumes "categorize_one rp g i a = Inr x"
    and "py_iter (py_or (keywords_of a) (JArr [])) = Inr kws"
  shows "set (harmful_words x)
     = set (detect_harmful_words rp (title a)) \<union> set (detect_harmful_words rp (description a))
       \<union> set (keyword_hits rp kws)"
  using assms
  by (auto simp: categorize_one_def Let_def article.defs enriched.defs split: sum.splits)

lemma iter_keyword_list: "py_iter (py_or (JArr kws) (JArr [])) = Inr kws"
  by (simp add: py_or_def)

lemma hits_scammer: "keyword_hits rp [JStr ''scammer''] = [''scam'']"
  by code_simp

lemma example_keyword_run:
  "categorize_one example_repr example_gemini 0 keyword_article = Inr keyword_enriched"
  by code_simp

text \<open>
  \<^bold>\<open>C8.\<close> The keyword scan collects exactly the lexicon terms that are a case-insensitive
  substring of some keyword, and every such term ends up among the harmful words of the
  enriched article. The keyword \<^verbatim>\<open>scammer\<close> is a hit for \<^verbatim>\<open>scam\<close>, while the whole-word
  detector finds nothing in the text \<^verbatim>\<open>scammer\<close>.
\<close>

theorem C8_keyword_substring_rule:
  "set (keyword_hits rp kws)
     = {w \<in> set HARMFUL_KEYWORDS. \<exists>kw \<in> set kws. ci_substring w (py_str rp kw)}
   \<and> (categorize_one rp g i a = Inr x \<and> keywords_of a = JArr kws
        \<and> w \<in> set HARMFUL_KEYWORDS \<and> kw \<in> set kws \<and> ci_substring w (py_str rp kw)
      \<longrightarrow> w \<in> set (harmful_words x))
   \<and> keyword_hits rp [JStr ''scammer''] = [''scam'']
   \<and> detect_harmful_words rp (JStr ''scammer'') = []"
proof (intro conjI impI)
  show "set (keyword_hits rp kws)
     = {w \<in> set HARMFUL_KEYWORDS. \<exists>kw \<in> set kws. ci_substring w (py_str rp kw)}"
    by (rule keyword_hits_set)
next
  assume a: "categorize_one rp g i a = Inr x \<and> keywords_of a = JArr kws
        \<and> w \<in> set HARMFUL_KEYWORDS \<and> kw \<in> set kws \<and> ci_substring w (py_str rp kw)"
  then have "py_iter (py_or (keywords_of a) (JArr [])) = Inr kws"
    using iter_keyword_list by simp
  with a have "set (keyword_hits rp kws) \<subseteq> set (harmful_words x)"
    using categorize_one_words by blast
  moreover have "w \<in> set (keyword_hits rp kws)"
    using a unfolding keyword_hits_set by blast
  ultimately show "w \<in> set (harmful_words x)" by blast
next
  show "keyword_hits rp [JStr ''scammer''] = [''scam'']" by (rule hits_scammer)
next
  show "detect_harmful_words rp (JStr ''scammer'') = []" by (rule detect_scammer)
qed

theorem C8_witness:
  "categorize_one example_repr example_gemini 0 keyword_article = Inr keyword_enriched
   \<and> keywords_of keyword_article = JArr [JStr ''Scammers'']
   \<and> ''scam'' \<in> set HARMFUL_KEYWORDS
   \<and> ci_substring ''scam'' (py_str example_repr (JStr ''Scammers''))
   \<and> ''scam'' \<in> set (harmful_words keyword_enriched)
   \<and> detect_harmful_words example_repr (JStr ''Scammers'') = []"
proof -
  have k: "keywords_of keyword_article = JArr [JStr ''Scammers'']"
    by (simp add: keyword_article_def)
  have m: "''scam'' \<in> set HARMFUL_KEYWORDS" by (simp add: HARMFUL_KEYWORDS_def)
  have "''Scammers'' = [] @ ''Scam'' @ ''mers''" by simp
  moreover have "py_lower ''Scam'' = py_lower ''scam''" by code_simp
  ultimately have c: "ci_substring ''scam'' (py_str example_repr (JStr ''Scammers''))"
    unfolding ci_substring_def py_str.simps by blast
  have d: "detect_harmful_words example_repr (JStr ''Scammers'') = []" by code_simp
  have "''scam'' \<in> set (harmful_words keyword_enriched)"
    using example_keyword_run k m c
      C8_keyword_substring_rule [of example_repr "[JStr ''Scammers'']" example_gemini 0
        keyword_article keyword_enriched "''scam''" "JStr ''Scammers''"]
    by simp
  then show ?thesis using example_keyword_run k m c d by simp
qed

end
